theory Spec2Isabelle
  imports Complex_Main
begin

section \<open>The attention tracker of \<^verbatim>\<open>src/attention_tracker.py\<close>\<close>

text \<open>
  The class \<^verbatim>\<open>AttentionTracker\<close> is embedded as a record of its attributes and one
  function per method, each taking the object and returning the updated one. The two
  strings \<^verbatim>\<open>"looking"\<close> and \<^verbatim>\<open>"not_looking"\<close>, the only values that ever reach the
  state attributes, are the constructors of \<open>attention\<close>. Python floats are read as
  reals and Python integers as \<open>int\<close>. The clock \<^verbatim>\<open>time.time()\<close> is an effect: every
  method that reads it takes the value read as its argument \<open>now\<close>.
\<close>

subsection \<open>Data\<close>

datatype attention = Looking | NotLooking

datatype error = ValueError | OverflowError | ZeroDivisionError

record tracker =
  alert_threshold :: real
  yaw_threshold :: real
  pitch_threshold :: real
  smoothing_window :: int
  min_consecutive_frames :: int
  current_state :: attention
  previous_state :: attention
  state_buffer :: "attention list"
  consecutive_count :: int
  time_not_looking :: real
  last_update_time :: real
  alert_active :: bool
  total_frames :: int
  frames_looking :: int
  frames_not_looking :: int

text \<open>The dictionary \<^verbatim>\<open>update\<close> returns; each key carries the prefix \<open>res_\<close>.\<close>

record frame_result =
  res_state :: attention
  res_time_not_looking :: real
  res_alert_active :: bool
  res_confidence :: real
  res_raw_state :: attention

text \<open>The dictionary \<^verbatim>\<open>get_statistics\<close> returns; each key carries the prefix \<open>stat_\<close>.\<close>

record statistics =
  stat_total_frames :: int
  stat_frames_looking :: int
  stat_frames_not_looking :: int
  stat_attention_ratio :: real
  stat_current_state :: attention
  stat_time_not_looking :: real
  stat_alert_active :: bool

text \<open>One call of \<^verbatim>\<open>update(yaw, pitch)\<close> together with the clock value it reads.\<close>

type_synonym frame = "real option \<times> real option \<times> real"

subsection \<open>The bounded deque\<close>

text \<open>
  \<^verbatim>\<open>deque(maxlen=n)\<close> converts \<open>n\<close> to the machine integer type \<^verbatim>\<open>Py_ssize_t\<close> and
  raises \<^verbatim>\<open>OverflowError\<close> when it does not fit; the largest value of that type is
  \<^verbatim>\<open>sys.maxsize\<close>, on a 64-bit build \<open>2 ^ 63 - 1\<close>. It then raises \<^verbatim>\<open>ValueError\<close> for
  a negative \<open>n\<close>, and otherwise returns an empty deque.
\<close>

definition PY_SSIZE_T_MAX :: int where
  "PY_SSIZE_T_MAX = 2 ^ 63 - 1"

definition deque_new :: "int \<Rightarrow> error + 'a list" where
  "deque_new maxlen =
     (if maxlen < - PY_SSIZE_T_MAX - 1 \<or> PY_SSIZE_T_MAX < maxlen then Inl OverflowError
      else if maxlen < 0 then Inl ValueError
      else Inr [])"

text \<open>
  \<^verbatim>\<open>append\<close> adds on the right and then drops the leftmost element when the length
  exceeds the bound; with the bound 0 the deque stays empty. The bound of the tracker's
  deque is the attribute \<open>smoothing_window\<close>, which no method assigns after
  construction.
\<close>

definition deque_append :: "int \<Rightarrow> 'a list \<Rightarrow> 'a \<Rightarrow> 'a list" where
  "deque_append maxlen d x =
     (let d' = d @ [x] in if int (length d') > maxlen then tl d' else d')"

subsection \<open>Construction\<close>

text \<open>
  The attributes \<^verbatim>\<open>__init__\<close> assigns, with the deque as it is when new: empty.
\<close>

definition fresh :: "real \<Rightarrow> real \<Rightarrow> real \<Rightarrow> int \<Rightarrow> int \<Rightarrow> real \<Rightarrow> tracker" where
  "fresh alert_thr yaw_thr pitch_thr window min_frames now =
     \<lparr> alert_threshold = alert_thr,
       yaw_threshold = yaw_thr,
       pitch_threshold = pitch_thr,
       smoothing_window = window,
       min_consecutive_frames = min_frames,
       current_state = Looking,
       previous_state = Looking,
       state_buffer = [],
       consecutive_count = 0,
       time_not_looking = 0,
       last_update_time = now,
       alert_active = False,
       total_frames = 0,
       frames_looking = 0,
       frames_not_looking = 0 \<rparr>"

text \<open>
  \<^verbatim>\<open>__init__\<close>: no argument is checked; the only statement that can raise is the
  construction of the deque on line 25, and an exception there leaves no object.
\<close>

definition init :: "real \<Rightarrow> real \<Rightarrow> real \<Rightarrow> int \<Rightarrow> int \<Rightarrow> real \<Rightarrow> error + tracker" where
  "init alert_thr yaw_thr pitch_thr window min_frames now =
     (case deque_new window of
        Inl e \<Rightarrow> Inl e
      | Inr d \<Rightarrow>
          Inr ((fresh alert_thr yaw_thr pitch_thr window min_frames now)
                 \<lparr> state_buffer := d \<rparr>))"

subsection \<open>Classification\<close>

definition classify_attention :: "tracker \<Rightarrow> real option \<Rightarrow> real option \<Rightarrow> attention" where
  "classify_attention self yaw pitch =
     (case (yaw, pitch) of
        (Some y, Some p) \<Rightarrow>
          (if \<bar>y\<bar> < yaw_threshold self \<and> \<bar>p\<bar> < pitch_threshold self
           then Looking else NotLooking)
      | _ \<Rightarrow> NotLooking)"

subsection \<open>The update, block by block\<close>

text \<open>Lines 60 to 66: read the clock, classify the frame, push it into the deque.\<close>

definition observe :: "tracker \<Rightarrow> real option \<Rightarrow> real option \<Rightarrow> real \<Rightarrow> tracker" where
  "observe self yaw pitch now =
     self\<lparr> last_update_time := now,
           state_buffer := deque_append (smoothing_window self) (state_buffer self)
                             (classify_attention self yaw pitch) \<rparr>"

text \<open>
  Lines 68 to 75, on the deque after the push: the smoothed state and the confidence.
  The division is by the length of the deque, which is zero only for a deque of bound
  zero.
\<close>

definition smooth :: "tracker \<Rightarrow> attention \<Rightarrow> error + (attention \<times> real)" where
  "smooth self raw_state =
     (if int (length (state_buffer self)) \<ge> smoothing_window self then
        (if length (state_buffer self) = 0 then Inl ZeroDivisionError
         else
           let looking_count = count_list (state_buffer self) Looking;
               confidence = real looking_count / real (length (state_buffer self))
           in Inr (if confidence > 0.5 then Looking else NotLooking, confidence))
      else Inr (raw_state, if raw_state = Looking then 1 else 0))"

text \<open>Lines 77 to 95: the debounce.\<close>

definition check_transition :: "tracker \<Rightarrow> attention \<Rightarrow> tracker" where
  "check_transition self smoothed_state =
     (if smoothed_state \<noteq> current_state self then
        let self1 =
              (if smoothed_state = previous_state self
               then self\<lparr> consecutive_count := consecutive_count self + 1 \<rparr>
               else self\<lparr> consecutive_count := 1, previous_state := smoothed_state \<rparr>)
        in if consecutive_count self1 \<ge> min_consecutive_frames self1 then
             let self2 = self1\<lparr> current_state := smoothed_state, consecutive_count := 0 \<rparr>
             in if current_state self2 = Looking
                then self2\<lparr> time_not_looking := 0, alert_active := False \<rparr>
                else self2
           else self1
      else self\<lparr> consecutive_count := 0, previous_state := smoothed_state \<rparr>)"

text \<open>Lines 97 to 101: the timer and the alert.\<close>

definition accumulate_time :: "tracker \<Rightarrow> real \<Rightarrow> tracker" where
  "accumulate_time self delta_time =
     (if current_state self = NotLooking then
        let self1 = self\<lparr> time_not_looking := time_not_looking self + delta_time \<rparr>
        in if time_not_looking self1 \<ge> alert_threshold self1
           then self1\<lparr> alert_active := True \<rparr> else self1
      else self)"

text \<open>Lines 103 to 108: the counters.\<close>

definition update_statistics :: "tracker \<Rightarrow> tracker" where
  "update_statistics self =
     (let self1 = self\<lparr> total_frames := total_frames self + 1 \<rparr>
      in if current_state self1 = Looking
         then self1\<lparr> frames_looking := frames_looking self1 + 1 \<rparr>
         else self1\<lparr> frames_not_looking := frames_not_looking self1 + 1 \<rparr>)"

text \<open>
  \<^verbatim>\<open>update\<close>. An exception leaves the object as the statements before it made it, so
  the object is returned beside the error too.
\<close>

definition update ::
  "tracker \<Rightarrow> real option \<Rightarrow> real option \<Rightarrow> real \<Rightarrow> (error + frame_result) \<times> tracker" where
  "update self yaw pitch now =
     (let delta_time = now - last_update_time self;
          raw_state = classify_attention self yaw pitch;
          self1 = observe self yaw pitch now
      in case smooth self1 raw_state of
           Inl e \<Rightarrow> (Inl e, self1)
         | Inr (smoothed_state, confidence) \<Rightarrow>
             let self2 = check_transition self1 smoothed_state;
                 self3 = accumulate_time self2 delta_time;
                 self4 = update_statistics self3
             in (Inr \<lparr> res_state = current_state self4,
                       res_time_not_looking = time_not_looking self4,
                       res_alert_active = alert_active self4,
                       res_confidence = confidence,
                       res_raw_state = raw_state \<rparr>,
                 self4))"

text \<open>The smoothed state a call of \<^verbatim>\<open>update\<close> computes on its way (its local variable).\<close>

definition smoothed_of :: "tracker \<Rightarrow> real option \<Rightarrow> real option \<Rightarrow> real \<Rightarrow> attention option" where
  "smoothed_of self yaw pitch now =
     (case smooth (observe self yaw pitch now) (classify_attention self yaw pitch) of
        Inl e \<Rightarrow> None
      | Inr (smoothed_state, confidence) \<Rightarrow> Some smoothed_state)"

subsection \<open>Reset and statistics\<close>

definition reset :: "tracker \<Rightarrow> real \<Rightarrow> tracker" where
  "reset self now =
     self\<lparr> current_state := Looking,
           previous_state := Looking,
           state_buffer := [],
           consecutive_count := 0,
           time_not_looking := 0,
           last_update_time := now,
           alert_active := False \<rparr>"

definition get_statistics :: "tracker \<Rightarrow> statistics" where
  "get_statistics self =
     \<lparr> stat_total_frames = total_frames self,
       stat_frames_looking = frames_looking self,
       stat_frames_not_looking = frames_not_looking self,
       stat_attention_ratio =
         (if total_frames self = 0 then 1
          else real_of_int (frames_looking self) / real_of_int (total_frames self)),
       stat_current_state = current_state self,
       stat_time_not_looking = time_not_looking self,
       stat_alert_active = alert_active self \<rparr>"

subsection \<open>Sequences of calls\<close>

text \<open>
  What one successful call leaves for an observer: the tracker state before it, the
  smoothed state it computed, and the dictionary it returned.
\<close>

record step =
  before :: attention
  smoothed :: attention
  result :: frame_result

text \<open>
  \<^verbatim>\<open>update\<close> called on each frame in turn; an exception ends the run, as it does for a
  caller that does not catch it.
\<close>

fun run :: "tracker \<Rightarrow> frame list \<Rightarrow> error + (step list \<times> tracker)" where
  "run self [] = Inr ([], self)"
| "run self ((yaw, pitch, now) # fs) =
     (case update self yaw pitch now of
        (Inl e, self') \<Rightarrow> Inl e
      | (Inr r, self') \<Rightarrow>
          (case run self' fs of
             Inl e \<Rightarrow> Inl e
           | Inr (steps, final) \<Rightarrow>
               Inr (\<lparr> before = current_state self,
                       smoothed = (case smoothed_of self yaw pitch now of
                                     Some v \<Rightarrow> v | None \<Rightarrow> current_state self),
                       result = r \<rparr> # steps, final)))"

text \<open>
  The object after \<^verbatim>\<open>update\<close> was called on each frame in turn, whatever each call
  returned or raised.
\<close>

fun feed :: "tracker \<Rightarrow> frame list \<Rightarrow> tracker" where
  "feed self [] = self"
| "feed self ((yaw, pitch, now) # fs) = feed (snd (update self yaw pitch now)) fs"

text \<open>
  The states a program can bring a tracker to: construction, then calls of
  \<^verbatim>\<open>update\<close> (returning or raising) and \<^verbatim>\<open>reset\<close> in any order.
\<close>

inductive reachable :: "tracker \<Rightarrow> bool" where
  constructed: "init a y p w m now = Inr self \<Longrightarrow> reachable self"
| updated: "reachable self \<Longrightarrow> reachable (snd (update self yaw pitch now))"
| was_reset: "reachable self \<Longrightarrow> reachable (reset self now)"

section \<open>Each block of the update\<close>

lemma init_cases:
  "init alert_thr yaw_thr pitch_thr window min_frames now =
     (if window < - (2 ^ 63) \<or> 2 ^ 63 \<le> window then Inl OverflowError
      else if window < 0 then Inl ValueError
      else Inr (fresh alert_thr yaw_thr pitch_thr window min_frames now))"
  by (simp add: init_def deque_new_def PY_SSIZE_T_MAX_def fresh_def)

lemma deque_append_nonempty: "1 \<le> maxlen \<Longrightarrow> deque_append maxlen d x \<noteq> []"
  by (cases d) (auto simp: deque_append_def Let_def)

lemma deque_append_length:
  "int (length d) \<le> maxlen \<Longrightarrow> int (length (deque_append maxlen d x)) \<le> maxlen"
  by (auto simp: deque_append_def Let_def)

lemma observe_fields [simp]:
  "alert_threshold (observe self yaw pitch now) = alert_threshold self"
  "yaw_threshold (observe self yaw pitch now) = yaw_threshold self"
  "pitch_threshold (observe self yaw pitch now) = pitch_threshold self"
  "smoothing_window (observe self yaw pitch now) = smoothing_window self"
  "min_consecutive_frames (observe self yaw pitch now) = min_consecutive_frames self"
  "current_state (observe self yaw pitch now) = current_state self"
  "previous_state (observe self yaw pitch now) = previous_state self"
  "consecutive_count (observe self yaw pitch now) = consecutive_count self"
  "time_not_looking (observe self yaw pitch now) = time_not_looking self"
  "last_update_time (observe self yaw pitch now) = now"
  "alert_active (observe self yaw pitch now) = alert_active self"
  "total_frames (observe self yaw pitch now) = total_frames self"
  "frames_looking (observe self yaw pitch now) = frames_looking self"
  "frames_not_looking (observe self yaw pitch now) = frames_not_looking self"
  "state_buffer (observe self yaw pitch now) =
     deque_append (smoothing_window self) (state_buffer self) (classify_attention self yaw pitch)"
  by (simp_all add: observe_def)

lemma check_transition_frame [simp]:
  "alert_threshold (check_transition self v) = alert_threshold self"
  "yaw_threshold (check_transition self v) = yaw_threshold self"
  "pitch_threshold (check_transition self v) = pitch_threshold self"
  "smoothing_window (check_transition self v) = smoothing_window self"
  "min_consecutive_frames (check_transition self v) = min_consecutive_frames self"
  "state_buffer (check_transition self v) = state_buffer self"
  "last_update_time (check_transition self v) = last_update_time self"
  "total_frames (check_transition self v) = total_frames self"
  "frames_looking (check_transition self v) = frames_looking self"
  "frames_not_looking (check_transition self v) = frames_not_looking self"
  by (simp_all add: check_transition_def Let_def)

lemma accumulate_time_frame [simp]:
  "alert_threshold (accumulate_time self d) = alert_threshold self"
  "yaw_threshold (accumulate_time self d) = yaw_threshold self"
  "pitch_threshold (accumulate_time self d) = pitch_threshold self"
  "smoothing_window (accumulate_time self d) = smoothing_window self"
  "min_consecutive_frames (accumulate_time self d) = min_consecutive_frames self"
  "current_state (accumulate_time self d) = current_state self"
  "previous_state (accumulate_time self d) = previous_state self"
  "consecutive_count (accumulate_time self d) = consecutive_count self"
  "state_buffer (accumulate_time self d) = state_buffer self"
  "last_update_time (accumulate_time self d) = last_update_time self"
  "total_frames (accumulate_time self d) = total_frames self"
  "frames_looking (accumulate_time self d) = frames_looking self"
  "frames_not_looking (accumulate_time self d) = frames_not_looking self"
  by (simp_all add: accumulate_time_def Let_def)

lemma update_statistics_frame [simp]:
  "alert_threshold (update_statistics self) = alert_threshold self"
  "yaw_threshold (update_statistics self) = yaw_threshold self"
  "pitch_threshold (update_statistics self) = pitch_threshold self"
  "smoothing_window (update_statistics self) = smoothing_window self"
  "min_consecutive_frames (update_statistics self) = min_consecutive_frames self"
  "current_state (update_statistics self) = current_state self"
  "previous_state (update_statistics self) = previous_state self"
  "consecutive_count (update_statistics self) = consecutive_count self"
  "state_buffer (update_statistics self) = state_buffer self"
  "time_not_looking (update_statistics self) = time_not_looking self"
  "last_update_time (update_statistics self) = last_update_time self"
  "alert_active (update_statistics self) = alert_active self"
  "total_frames (update_statistics self) = total_frames self + 1"
  by (simp_all add: update_statistics_def Let_def)

lemma smooth_succeeds:
  assumes "1 \<le> smoothing_window self"
  shows "\<exists>v c. smooth (observe self yaw pitch now) raw = Inr (v, c)"
  using deque_append_nonempty [OF assms, of "state_buffer self" "classify_attention self yaw pitch"]
  by (simp add: smooth_def Let_def)

lemma update_returns:
  assumes "smooth (observe self yaw pitch now) (classify_attention self yaw pitch) = Inr (v, c)"
  shows "update self yaw pitch now =
     (Inr \<lparr> res_state = current_state (check_transition (observe self yaw pitch now) v),
            res_time_not_looking = time_not_looking (accumulate_time
               (check_transition (observe self yaw pitch now) v) (now - last_update_time self)),
            res_alert_active = alert_active (accumulate_time
               (check_transition (observe self yaw pitch now) v) (now - last_update_time self)),
            res_confidence = c,
            res_raw_state = classify_attention self yaw pitch \<rparr>,
      update_statistics (accumulate_time
        (check_transition (observe self yaw pitch now) v) (now - last_update_time self)))"
  using assms by (simp add: update_def Let_def)

lemma update_raises:
  assumes "smooth (observe self yaw pitch now) (classify_attention self yaw pitch) = Inl e"
  shows "update self yaw pitch now = (Inl e, observe self yaw pitch now)"
  using assms by (simp add: update_def Let_def)

lemma update_cases:
  obtains (returns) v c where
      "smooth (observe self yaw pitch now) (classify_attention self yaw pitch) = Inr (v, c)"
      "smoothed_of self yaw pitch now = Some v"
  | (raises) e where
      "smooth (observe self yaw pitch now) (classify_attention self yaw pitch) = Inl e"
      "smoothed_of self yaw pitch now = None"
  by (cases "smooth (observe self yaw pitch now) (classify_attention self yaw pitch)")
     (auto simp: smoothed_of_def)

text \<open>The definitions a call on a concrete tracker unfolds to.\<close>

lemmas concrete_call =
  update_def observe_def smooth_def check_transition_def accumulate_time_def
  update_statistics_def classify_attention_def deque_append_def fresh_def smoothed_of_def
  Let_def

section \<open>Classification\<close>

text \<open>
  C7. \<^verbatim>\<open>classify_attention\<close> reads the two thresholds of the tracker and its two
  arguments and returns a value without changing anything. A sample whose yaw or pitch
  is missing is \<open>NotLooking\<close>; a present sample is \<open>Looking\<close> exactly when the
  absolute yaw is strictly below the yaw threshold and the absolute pitch strictly below
  the pitch threshold. With the default thresholds a yaw of exactly 25 degrees, or a
  pitch of exactly 20 degrees, is \<open>NotLooking\<close>.
\<close>

theorem classify_attention_strict_thresholds:
  "classify_attention self None pitch = NotLooking \<and>
   classify_attention self yaw None = NotLooking \<and>
   (classify_attention self (Some y) (Some p) = Looking
      \<longleftrightarrow> \<bar>y\<bar> < yaw_threshold self \<and> \<bar>p\<bar> < pitch_threshold self) \<and>
   (classify_attention self (Some y) (Some p) = NotLooking
      \<longleftrightarrow> \<not> (\<bar>y\<bar> < yaw_threshold self \<and> \<bar>p\<bar> < pitch_threshold self)) \<and>
   classify_attention (fresh 5 25 20 5 3 now) (Some 25) (Some 0) = NotLooking \<and>
   classify_attention (fresh 5 25 20 5 3 now) (Some (- 25)) (Some 0) = NotLooking \<and>
   classify_attention (fresh 5 25 20 5 3 now) (Some 0) (Some 20) = NotLooking \<and>
   classify_attention (fresh 5 25 20 5 3 now) (Some 0) (Some 0) = Looking \<and>
   classify_attention (fresh 5 25 20 5 3 now) (Some 30) (Some 0) = NotLooking"
  by (cases yaw; cases pitch) (simp_all add: classify_attention_def fresh_def)

section \<open>Construction\<close>

text \<open>
  C2, as the code has it. \<^verbatim>\<open>__init__\<close> checks none of its arguments, so whether it
  returns a tracker depends on the smoothing window alone, never on the alert threshold
  or the count of confirming frames. It returns one exactly when the window is between 0
  and \<open>2 ^ 63 - 1\<close>; it raises the deque's \<^verbatim>\<open>ValueError\<close> exactly when the window is
  between \<open>- 2 ^ 63\<close> and \<open>- 1\<close>, and the deque's \<^verbatim>\<open>OverflowError\<close> exactly when the
  window is outside the machine range; it raises nothing else. A tracker it returns is
  reachable, stores the five options as given and shows the construction-time
  statistics; with a window of at least 1 every \<^verbatim>\<open>update\<close> on it returns, and with the
  window 0 every \<^verbatim>\<open>update\<close> on it raises \<^verbatim>\<open>ZeroDivisionError\<close>. So every
  configuration with a positive threshold, a window from 1 to \<open>2 ^ 63 - 1\<close> and a count
  of at least 1 constructs.
\<close>

theorem init_fails_only_in_the_deque:
  "((\<exists>self. init alert_thr yaw_thr pitch_thr window min_frames now = Inr self)
      \<longleftrightarrow> 0 \<le> window \<and> window \<le> 2 ^ 63 - 1) \<and>
   (init alert_thr yaw_thr pitch_thr window min_frames now = Inl ValueError
      \<longleftrightarrow> - (2 ^ 63) \<le> window \<and> window < 0) \<and>
   (init alert_thr yaw_thr pitch_thr window min_frames now = Inl OverflowError
      \<longleftrightarrow> window < - (2 ^ 63) \<or> 2 ^ 63 - 1 < window) \<and>
   init alert_thr yaw_thr pitch_thr window min_frames now \<noteq> Inl ZeroDivisionError \<and>
   (\<forall>self. init alert_thr yaw_thr pitch_thr window min_frames now = Inr self \<longrightarrow>
      reachable self \<and>
      alert_threshold self = alert_thr \<and> yaw_threshold self = yaw_thr \<and>
      pitch_threshold self = pitch_thr \<and> smoothing_window self = window \<and>
      min_consecutive_frames self = min_frames \<and>
      get_statistics self =
        \<lparr> stat_total_frames = 0, stat_frames_looking = 0, stat_frames_not_looking = 0,
          stat_attention_ratio = 1, stat_current_state = Looking,
          stat_time_not_looking = 0, stat_alert_active = False \<rparr> \<and>
      (1 \<le> window \<longrightarrow>
         (\<forall>yaw pitch t. \<exists>r self'. update self yaw pitch t = (Inr r, self'))) \<and>
      (window = 0 \<longrightarrow>
         (\<forall>yaw pitch t. fst (update self yaw pitch t) = Inl ZeroDivisionError))) \<and>
   (0 < alert_thr \<and> 1 \<le> window \<and> window \<le> 2 ^ 63 - 1 \<and> 1 \<le> min_frames \<longrightarrow>
      init alert_thr yaw_thr pitch_thr window min_frames now
        = Inr (fresh alert_thr yaw_thr pitch_thr window min_frames now))"
proof -
  have "reachable self \<and>
      alert_threshold self = alert_thr \<and> yaw_threshold self = yaw_thr \<and>
      pitch_threshold self = pitch_thr \<and> smoothing_window self = window \<and>
      min_consecutive_frames self = min_frames \<and>
      get_statistics self =
        \<lparr> stat_total_frames = 0, stat_frames_looking = 0, stat_frames_not_looking = 0,
          stat_attention_ratio = 1, stat_current_state = Looking,
          stat_time_not_looking = 0, stat_alert_active = False \<rparr> \<and>
      (1 \<le> window \<longrightarrow>
         (\<forall>yaw pitch t. \<exists>r self'. update self yaw pitch t = (Inr r, self'))) \<and>
      (window = 0 \<longrightarrow>
         (\<forall>yaw pitch t. fst (update self yaw pitch t) = Inl ZeroDivisionError))"
    if i: "init alert_thr yaw_thr pitch_thr window min_frames now = Inr self" for self
  proof -
    have r: "reachable self"
      using i by (rule reachable.constructed)
    have f: "self = fresh alert_thr yaw_thr pitch_thr window min_frames now"
      using i by (simp add: init_cases split: if_splits)
    have returns: "\<exists>r self'. update self yaw pitch t = (Inr r, self')"
      if w: "1 \<le> window" for yaw pitch t
    proof -
      have "1 \<le> smoothing_window self" using w by (simp add: f fresh_def)
      from smooth_succeeds [OF this]
      obtain v c where
        "smooth (observe self yaw pitch t) (classify_attention self yaw pitch) = Inr (v, c)"
        by blast
      from update_returns [OF this] show ?thesis by blast
    qed
    have raises: "fst (update self yaw pitch t) = Inl ZeroDivisionError"
      if w: "window = 0" for yaw pitch t
    proof -
      have "smooth (observe self yaw pitch t) (classify_attention self yaw pitch)
              = Inl ZeroDivisionError"
        using w by (simp add: f fresh_def smooth_def observe_def deque_append_def)
      from update_raises [OF this] show ?thesis by simp
    qed
    show ?thesis
      using r returns raises by (simp add: f fresh_def get_statistics_def)
  qed
  then show ?thesis
    by (simp add: init_cases)
qed

theorem init_fails_only_in_the_deque_witness:
  "init 5 25 20 5 3 0 = Inr (fresh 5 25 20 5 3 0) \<and>
   reachable (fresh 5 25 20 5 3 0) \<and>
   (\<exists>r self'. update (fresh 5 25 20 5 3 0) None None 1 = (Inr r, self')) \<and>
   init 5 25 20 (- 1) 3 0 = Inl ValueError \<and>
   init 5 25 20 (2 ^ 63) 3 0 = Inl OverflowError"
proof -
  note ok = init_fails_only_in_the_deque [of 5 25 20 5 3 0]
  have valid: "(0::real) < 5 \<and> (1::int) \<le> 5 \<and> (5::int) \<le> 2 ^ 63 - 1 \<and> (1::int) \<le> 3"
    by simp
  have i: "init 5 25 20 5 3 0 = Inr (fresh 5 25 20 5 3 0)"
    using ok valid by blast
  have "reachable (fresh 5 25 20 5 3 0) \<and>
        (\<forall>yaw pitch t. \<exists>r self'. update (fresh 5 25 20 5 3 0) yaw pitch t = (Inr r, self'))"
    using ok i by simp
  then have u: "reachable (fresh 5 25 20 5 3 0) \<and>
        (\<exists>r self'. update (fresh 5 25 20 5 3 0) None None 1 = (Inr r, self'))"
    by blast
  have v: "init 5 25 20 (- 1) 3 0 = Inl ValueError"
    using init_fails_only_in_the_deque [of 5 25 20 "- 1" 3 0] by simp
  have o: "init 5 25 20 (2 ^ 63) 3 0 = Inl OverflowError"
    using init_fails_only_in_the_deque [of 5 25 20 "2 ^ 63" 3 0] by simp
  show ?thesis
    using i u v o by simp
qed

text \<open>
  The claim as the specification states it fails: a zero alert threshold, a window of
  size zero and a zero count of confirming frames each produce a tracker, and a valid
  configuration with a window of \<open>2 ^ 63\<close> does not.
\<close>

theorem init_invalid_configuration_counterexample:
  "init 0 25 20 5 3 0 = Inr (fresh 0 25 20 5 3 0) \<and>
   init 5 25 20 0 3 0 = Inr (fresh 5 25 20 0 3 0) \<and>
   init 5 25 20 5 0 0 = Inr (fresh 5 25 20 5 0 0) \<and>
   init 5 25 20 (2 ^ 63) 3 0 = Inl OverflowError"
  by (simp add: init_cases)

section \<open>Invariants of the reachable states\<close>

lemma update_statistics_counts:
  "frames_looking (update_statistics self) =
     (if current_state self = Looking then frames_looking self + 1 else frames_looking self)"
  "frames_not_looking (update_statistics self) =
     (if current_state self = Looking then frames_not_looking self
      else frames_not_looking self + 1)"
  by (simp_all add: update_statistics_def Let_def)

lemma snd_update:
  "snd (update self yaw pitch now) =
     (case smooth (observe self yaw pitch now) (classify_attention self yaw pitch) of
        Inl e \<Rightarrow> observe self yaw pitch now
      | Inr (v, c) \<Rightarrow>
          update_statistics (accumulate_time
            (check_transition (observe self yaw pitch now) v) (now - last_update_time self)))"
  by (simp add: update_def Let_def split: sum.splits prod.splits)

lemma update_config [simp]:
  "alert_threshold (snd (update self yaw pitch now)) = alert_threshold self"
  "yaw_threshold (snd (update self yaw pitch now)) = yaw_threshold self"
  "pitch_threshold (snd (update self yaw pitch now)) = pitch_threshold self"
  "smoothing_window (snd (update self yaw pitch now)) = smoothing_window self"
  "min_consecutive_frames (snd (update self yaw pitch now)) = min_consecutive_frames self"
  by (simp_all add: snd_update split: sum.splits prod.splits)

lemma reset_fields [simp]:
  "alert_threshold (reset self now) = alert_threshold self"
  "yaw_threshold (reset self now) = yaw_threshold self"
  "pitch_threshold (reset self now) = pitch_threshold self"
  "smoothing_window (reset self now) = smoothing_window self"
  "min_consecutive_frames (reset self now) = min_consecutive_frames self"
  "current_state (reset self now) = Looking"
  "previous_state (reset self now) = Looking"
  "state_buffer (reset self now) = []"
  "consecutive_count (reset self now) = 0"
  "time_not_looking (reset self now) = 0"
  "last_update_time (reset self now) = now"
  "alert_active (reset self now) = False"
  "total_frames (reset self now) = total_frames self"
  "frames_looking (reset self now) = frames_looking self"
  "frames_not_looking (reset self now) = frames_not_looking self"
  by (simp_all add: reset_def)

lemma check_transition_count:
  assumes "0 \<le> consecutive_count self" and "1 \<le> min_consecutive_frames self"
  shows "0 \<le> consecutive_count (check_transition self v)"
    and "consecutive_count (check_transition self v) < min_consecutive_frames self"
  using assms by (auto simp: check_transition_def Let_def)

lemma check_transition_settles:
  "v = current_state self \<Longrightarrow> consecutive_count (check_transition self v) = 0"
  "current_state (check_transition self v) \<noteq> current_state self \<Longrightarrow>
     consecutive_count (check_transition self v) = 0"
  by (auto simp: check_transition_def Let_def split: if_splits)

lemma update_count:
  assumes "0 \<le> consecutive_count self"
    and "consecutive_count self < min_consecutive_frames self"
  shows "0 \<le> consecutive_count (snd (update self yaw pitch now))"
    and "consecutive_count (snd (update self yaw pitch now)) < min_consecutive_frames self"
  using assms check_transition_count [of "observe self yaw pitch now"]
  by (auto simp: snd_update split: sum.splits prod.splits)

lemma reachable_count:
  "reachable self \<Longrightarrow> 1 \<le> min_consecutive_frames self \<Longrightarrow>
     0 \<le> consecutive_count self \<and> consecutive_count self < min_consecutive_frames self"
proof (induction rule: reachable.induct)
  case (constructed a y p w m now self)
  then show ?case by (auto simp: init_cases fresh_def split: if_splits)
next
  case (updated self yaw pitch now)
  then show ?case using update_count [of self yaw pitch now] by simp
next
  case (was_reset self now)
  then show ?case by simp
qed

text \<open>
  C10, with the bound the code does not check. For a tracker whose
  \<open>min_consecutive_frames\<close> is at least 1: after
  construction, after \<^verbatim>\<open>reset\<close> and after every call of \<^verbatim>\<open>update\<close> the debounce
  counter is at least 0 and strictly below \<open>min_consecutive_frames\<close>. \<^verbatim>\<open>reset\<close>
  sets it to 0; a call whose smoothed state equals the current state sets it to 0; and a
  call that changes the current state (the counter reached the threshold) sets it to 0
  in that same call.
\<close>

theorem debounce_counter_stays_below_threshold:
  assumes "reachable self" and "1 \<le> min_consecutive_frames self"
  shows "0 \<le> consecutive_count self \<and> consecutive_count self < min_consecutive_frames self \<and>
         consecutive_count (reset self t) = 0 \<and>
         (\<forall>yaw pitch now r self'. update self yaw pitch now = (Inr r, self') \<longrightarrow>
            0 \<le> consecutive_count self' \<and>
            consecutive_count self' < min_consecutive_frames self' \<and>
            (smoothed_of self yaw pitch now = Some (current_state self) \<longrightarrow>
               consecutive_count self' = 0) \<and>
            (current_state self' \<noteq> current_state self \<longrightarrow> consecutive_count self' = 0))"
proof -
  have inv: "0 \<le> consecutive_count self \<and> consecutive_count self < min_consecutive_frames self"
    using assms by (rule reachable_count)
  have step: "0 \<le> consecutive_count self' \<and>
            consecutive_count self' < min_consecutive_frames self' \<and>
            (smoothed_of self yaw pitch now = Some (current_state self) \<longrightarrow>
               consecutive_count self' = 0) \<and>
            (current_state self' \<noteq> current_state self \<longrightarrow> consecutive_count self' = 0)"
    if u: "update self yaw pitch now = (Inr r, self')" for yaw pitch now r self'
  proof -
    have s: "self' = snd (update self yaw pitch now)" using u by simp
    have "reachable self'" unfolding s using assms(1) by (rule reachable.updated)
    moreover have m: "min_consecutive_frames self' = min_consecutive_frames self"
      unfolding s by simp
    ultimately have a: "0 \<le> consecutive_count self' \<and>
            consecutive_count self' < min_consecutive_frames self'"
      using reachable_count [of self'] assms(2) by simp
    show ?thesis
    proof (cases rule: update_cases [of self yaw pitch now])
      case (returns v c)
      have s': "self' = update_statistics (accumulate_time
            (check_transition (observe self yaw pitch now) v) (now - last_update_time self))"
        using u update_returns [OF returns(1)] by simp
      show ?thesis
        using a returns(2) check_transition_settles [where v = v and self = "observe self yaw pitch now"]
        by (simp add: s')
    next
      case (raises e)
      then show ?thesis using u update_raises [OF raises(1)] by simp
    qed
  qed
  show ?thesis using inv step by simp
qed

text \<open>
  The invariant at the tracker with the default options after one frame without a face:
  the counter is 1, below the threshold 3.
\<close>

theorem debounce_counter_stays_below_threshold_witness:
  "reachable (snd (update (fresh 5 25 20 5 3 0) None None 1)) \<and>
   1 \<le> min_consecutive_frames (snd (update (fresh 5 25 20 5 3 0) None None 1)) \<and>
   consecutive_count (snd (update (fresh 5 25 20 5 3 0) None None 1)) = 1 \<and>
   consecutive_count (snd (update (fresh 5 25 20 5 3 0) None None 1))
     < min_consecutive_frames (snd (update (fresh 5 25 20 5 3 0) None None 1))"
proof -
  have "init 5 25 20 5 3 0 = Inr (fresh 5 25 20 5 3 0)"
    by (simp add: init_cases)
  then have "reachable (fresh 5 25 20 5 3 0)"
    by (rule reachable.constructed)
  then have r: "reachable (snd (update (fresh 5 25 20 5 3 0) None None 1))"
    by (rule reachable.updated)
  have m: "1 \<le> min_consecutive_frames (snd (update (fresh 5 25 20 5 3 0) None None 1))"
    by (simp add: fresh_def)
  have c: "consecutive_count (snd (update (fresh 5 25 20 5 3 0) None None 1)) = 1"
    by (simp add: concrete_call)
  show ?thesis
    using debounce_counter_stays_below_threshold [OF r m] r m c by simp
qed

text \<open>
  The claim as stated, for every tracker the code constructs, fails: construction
  accepts a count of confirming frames of 0, and on that tracker the counter 0 is not
  below the threshold 0.
\<close>

theorem counter_reaches_zero_threshold_counterexample:
  "init 5 25 20 5 0 0 = Inr (fresh 5 25 20 5 0 0) \<and>
   reachable (fresh 5 25 20 5 0 0) \<and>
   consecutive_count (fresh 5 25 20 5 0 0) = 0 \<and>
   min_consecutive_frames (fresh 5 25 20 5 0 0) = 0 \<and>
   \<not> consecutive_count (fresh 5 25 20 5 0 0) < min_consecutive_frames (fresh 5 25 20 5 0 0)"
proof -
  have i: "init 5 25 20 5 0 0 = Inr (fresh 5 25 20 5 0 0)"
    by (simp add: init_cases)
  then have "reachable (fresh 5 25 20 5 0 0)"
    by (rule reachable.constructed)
  then show ?thesis
    using i by (simp add: fresh_def)
qed

lemma reachable_counters:
  "reachable self \<Longrightarrow> total_frames self = frames_looking self + frames_not_looking self"
proof (induction rule: reachable.induct)
  case (constructed a y p w m now self)
  then show ?case by (auto simp: init_cases fresh_def split: if_splits)
next
  case (updated self yaw pitch now)
  then show ?case
    by (simp add: snd_update update_statistics_counts split: sum.splits prod.splits)
next
  case (was_reset self now)
  then show ?case by simp
qed

text \<open>
  C8. In every reachable state \<open>total_frames = frames_looking + frames_not_looking\<close>,
  and \<^verbatim>\<open>get_statistics\<close> reports the three counters with the ratio
  \<open>frames_looking / total_frames\<close>, or 1 when \<open>total_frames\<close> is 0. For a tracker
  with a smoothing window of at least 1 every call of \<^verbatim>\<open>update\<close> returns, adds one to
  \<open>total_frames\<close> and adds one to exactly one of the other two counters: to
  \<open>frames_looking\<close> when the state after the call is \<open>Looking\<close>, to
  \<open>frames_not_looking\<close> otherwise.
\<close>

theorem statistics_counters_partition_the_calls:
  assumes "reachable self"
  shows "total_frames self = frames_looking self + frames_not_looking self \<and>
         stat_total_frames (get_statistics self) = total_frames self \<and>
         stat_frames_looking (get_statistics self) = frames_looking self \<and>
         stat_frames_not_looking (get_statistics self) = frames_not_looking self \<and>
         stat_attention_ratio (get_statistics self) =
           (if total_frames self = 0 then 1
            else real_of_int (frames_looking self) / real_of_int (total_frames self)) \<and>
         (1 \<le> smoothing_window self \<longrightarrow>
            (\<forall>yaw pitch now. \<exists>r self'.
               update self yaw pitch now = (Inr r, self') \<and>
               total_frames self' = total_frames self + 1 \<and>
               (if current_state self' = Looking
                then frames_looking self' = frames_looking self + 1 \<and>
                     frames_not_looking self' = frames_not_looking self
                else frames_not_looking self' = frames_not_looking self + 1 \<and>
                     frames_looking self' = frames_looking self) \<and>
               total_frames self' = frames_looking self' + frames_not_looking self'))"
proof -
  have part: "total_frames self = frames_looking self + frames_not_looking self"
    using assms by (rule reachable_counters)
  have step: "\<exists>r self'.
               update self yaw pitch now = (Inr r, self') \<and>
               total_frames self' = total_frames self + 1 \<and>
               (if current_state self' = Looking
                then frames_looking self' = frames_looking self + 1 \<and>
                     frames_not_looking self' = frames_not_looking self
                else frames_not_looking self' = frames_not_looking self + 1 \<and>
                     frames_looking self' = frames_looking self) \<and>
               total_frames self' = frames_looking self' + frames_not_looking self'"
    if w: "1 \<le> smoothing_window self" for yaw pitch now
  proof -
    obtain v c where
      "smooth (observe self yaw pitch now) (classify_attention self yaw pitch) = Inr (v, c)"
      using smooth_succeeds [OF w] by blast
    from update_returns [OF this] show ?thesis
      using part by (simp add: update_statistics_counts)
  qed
  show ?thesis using part step by (simp add: get_statistics_def)
qed

text \<open>
  The statistics of the default tracker after one frame without a face, and the call
  after it.
\<close>

theorem statistics_counters_partition_the_calls_witness:
  "reachable (snd (update (fresh 5 25 20 5 3 0) None None 1)) \<and>
   1 \<le> smoothing_window (snd (update (fresh 5 25 20 5 3 0) None None 1)) \<and>
   total_frames (snd (update (fresh 5 25 20 5 3 0) None None 1)) = 1 \<and>
   frames_looking (snd (update (fresh 5 25 20 5 3 0) None None 1)) = 1 \<and>
   frames_not_looking (snd (update (fresh 5 25 20 5 3 0) None None 1)) = 0 \<and>
   stat_attention_ratio (get_statistics (snd (update (fresh 5 25 20 5 3 0) None None 1))) = 1 \<and>
   (\<exists>r self'. update (snd (update (fresh 5 25 20 5 3 0) None None 1)) None None 2 = (Inr r, self')
      \<and> total_frames self' = 2)"
proof -
  have "init 5 25 20 5 3 0 = Inr (fresh 5 25 20 5 3 0)"
    by (simp add: init_cases)
  then have "reachable (fresh 5 25 20 5 3 0)"
    by (rule reachable.constructed)
  then have r: "reachable (snd (update (fresh 5 25 20 5 3 0) None None 1))"
    by (rule reachable.updated)
  have w: "1 \<le> smoothing_window (snd (update (fresh 5 25 20 5 3 0) None None 1))"
    by (simp add: fresh_def)
  have c: "total_frames (snd (update (fresh 5 25 20 5 3 0) None None 1)) = 1"
    "frames_looking (snd (update (fresh 5 25 20 5 3 0) None None 1)) = 1"
    "frames_not_looking (snd (update (fresh 5 25 20 5 3 0) None None 1)) = 0"
    by (simp_all add: concrete_call)
  have "\<forall>yaw pitch now. \<exists>r self'.
          update (snd (update (fresh 5 25 20 5 3 0) None None 1)) yaw pitch now = (Inr r, self') \<and>
          total_frames self' = total_frames (snd (update (fresh 5 25 20 5 3 0) None None 1)) + 1"
    using statistics_counters_partition_the_calls [OF r] w by blast
  then have next_call: "\<exists>r self'.
          update (snd (update (fresh 5 25 20 5 3 0) None None 1)) None None 2 = (Inr r, self') \<and>
          total_frames self' = total_frames (snd (update (fresh 5 25 20 5 3 0) None None 1)) + 1"
    by blast
  have ratio: "stat_attention_ratio
      (get_statistics (snd (update (fresh 5 25 20 5 3 0) None None 1))) = 1"
    using statistics_counters_partition_the_calls [OF r] c by simp
  show ?thesis
    using r w c next_call ratio by simp
qed

section \<open>Smoothing and the alert\<close>

lemma update_buffer:
  "state_buffer (snd (update self yaw pitch now)) =
     deque_append (smoothing_window self) (state_buffer self) (classify_attention self yaw pitch)"
  by (simp add: snd_update split: sum.splits prod.splits)

lemma reachable_buffer:
  "reachable self \<Longrightarrow> int (length (state_buffer self)) \<le> smoothing_window self"
proof (induction rule: reachable.induct)
  case (constructed a y p w m now self)
  then show ?case by (auto simp: init_cases fresh_def split: if_splits)
next
  case (updated self yaw pitch now)
  then show ?case by (simp add: update_buffer deque_append_length)
next
  case (was_reset self now)
  then have "0 \<le> smoothing_window self"
    using of_nat_0_le_iff [of "length (state_buffer self)"] by linarith
  then show ?case by simp
qed

lemma smooth_full:
  assumes "int (length (state_buffer s)) = smoothing_window s" and "state_buffer s \<noteq> []"
  shows "smooth s raw =
     Inr (if real (count_list (state_buffer s) Looking) / real_of_int (smoothing_window s) > 1 / 2
          then Looking else NotLooking,
          real (count_list (state_buffer s) Looking) / real_of_int (smoothing_window s))"
  using assms(2) by (simp add: smooth_def Let_def assms(1) [symmetric])

lemma smooth_filling:
  assumes "int (length (state_buffer s)) < smoothing_window s"
  shows "smooth s raw = Inr (raw, if raw = Looking then 1 else 0)"
  using assms by (simp add: smooth_def)

text \<open>
  C6. For a reachable tracker with a smoothing window \<open>W\<close> of at least 1, every call
  of \<^verbatim>\<open>update\<close> returns, and on the deque after the push: when it holds \<open>W\<close>
  classifications, the confidence is the number of \<open>Looking\<close> entries divided by
  \<open>W\<close> and the smoothed state is \<open>Looking\<close> exactly when the confidence exceeds one
  half, so a tie at one half is \<open>NotLooking\<close>; when it holds fewer, the smoothed state
  is the raw classification of the frame and the confidence is 1 for \<open>Looking\<close> and 0
  otherwise.
\<close>

theorem smoothing_is_a_strict_majority_vote:
  assumes "reachable self" and "1 \<le> smoothing_window self"
  shows "\<exists>r self' v.
           update self yaw pitch now = (Inr r, self') \<and>
           smoothed_of self yaw pitch now = Some v \<and>
           res_raw_state r = classify_attention self yaw pitch \<and>
           state_buffer self' =
             deque_append (smoothing_window self) (state_buffer self) (res_raw_state r) \<and>
           int (length (state_buffer self')) \<le> smoothing_window self \<and>
           (if int (length (state_buffer self')) = smoothing_window self
            then res_confidence r =
                   real (count_list (state_buffer self') Looking)
                     / real_of_int (smoothing_window self) \<and>
                 (v = Looking \<longleftrightarrow> res_confidence r > 1 / 2) \<and>
                 (res_confidence r = 1 / 2 \<longrightarrow> v = NotLooking)
            else v = res_raw_state r \<and>
                 res_confidence r = (if res_raw_state r = Looking then 1 else 0))"
proof -
  let ?o = "observe self yaw pitch now"
  let ?raw = "classify_attention self yaw pitch"
  have len: "int (length (state_buffer ?o)) \<le> smoothing_window ?o"
    using reachable_buffer [OF assms(1)] by (simp add: deque_append_length)
  have ne: "state_buffer ?o \<noteq> []"
    using deque_append_nonempty [OF assms(2)] by simp
  show ?thesis
  proof (cases "int (length (state_buffer ?o)) = smoothing_window ?o")
    case True
    from smooth_full [OF True ne, of ?raw]
    obtain v c where sm: "smooth ?o ?raw = Inr (v, c)"
      and c: "c = real (count_list (state_buffer ?o) Looking) / real_of_int (smoothing_window ?o)"
      and v: "v = (if c > 1 / 2 then Looking else NotLooking)"
      by simp
    have so: "smoothed_of self yaw pitch now = Some v"
      using sm by (simp add: smoothed_of_def)
    show ?thesis
      using update_returns [OF sm] so True c v len by simp
  next
    case False
    then have "int (length (state_buffer ?o)) < smoothing_window ?o"
      using len by linarith
    from smooth_filling [OF this, of ?raw]
    have sm: "smooth ?o ?raw = Inr (?raw, if ?raw = Looking then 1 else 0)" .
    have so: "smoothed_of self yaw pitch now = Some ?raw"
      using sm by (simp add: smoothed_of_def)
    show ?thesis
      using update_returns [OF sm] so False len by simp
  qed
qed

text \<open>
  A tie: with a window of 2, a frame looking straight ahead and then a frame without a
  face give the confidence one half and the smoothed state \<open>NotLooking\<close>.
\<close>

theorem smoothing_is_a_strict_majority_vote_witness:
  "reachable (snd (update (fresh 5 25 20 2 3 0) (Some 0) (Some 0) 1)) \<and>
   1 \<le> smoothing_window (snd (update (fresh 5 25 20 2 3 0) (Some 0) (Some 0) 1)) \<and>
   (\<exists>r self' v.
      update (snd (update (fresh 5 25 20 2 3 0) (Some 0) (Some 0) 1)) None None 2 = (Inr r, self') \<and>
      smoothed_of (snd (update (fresh 5 25 20 2 3 0) (Some 0) (Some 0) 1)) None None 2 = Some v \<and>
      state_buffer self' = [Looking, NotLooking] \<and>
      res_confidence r = 1 / 2 \<and> v = NotLooking)"
proof -
  let ?X = "snd (update (fresh 5 25 20 2 3 0) (Some 0) (Some 0) 1)"
  have "init 5 25 20 2 3 0 = Inr (fresh 5 25 20 2 3 0)"
    by (simp add: init_cases)
  then have "reachable (fresh 5 25 20 2 3 0)"
    by (rule reachable.constructed)
  then have r: "reachable ?X"
    by (rule reachable.updated)
  have w: "1 \<le> smoothing_window ?X"
    by (simp add: fresh_def)
  have b: "state_buffer ?X = [Looking]" "smoothing_window ?X = 2"
    "classify_attention ?X None None = NotLooking"
    by (simp_all add: concrete_call)
  from smoothing_is_a_strict_majority_vote [OF r w, of None None 2]
  obtain res self' v where
    u: "update ?X None None 2 = (Inr res, self')" and
    so: "smoothed_of ?X None None 2 = Some v" and
    raw: "res_raw_state res = classify_attention ?X None None" and
    buf: "state_buffer self' = deque_append (smoothing_window ?X) (state_buffer ?X) (res_raw_state res)" and
    vote: "if int (length (state_buffer self')) = smoothing_window ?X
            then res_confidence res =
                   real (count_list (state_buffer self') Looking)
                     / real_of_int (smoothing_window ?X) \<and>
                 (v = Looking \<longleftrightarrow> res_confidence res > 1 / 2) \<and>
                 (res_confidence res = 1 / 2 \<longrightarrow> v = NotLooking)
            else v = res_raw_state res \<and>
                 res_confidence res = (if res_raw_state res = Looking then 1 else 0)"
    by blast
  have buf': "state_buffer self' = [Looking, NotLooking]"
    using buf raw b by (simp add: deque_append_def)
  have "res_confidence res = 1 / 2 \<and> v = NotLooking"
    using vote buf' b by simp
  then show ?thesis
    using r w u so buf' by blast
qed

lemma update_alert_step:
  assumes "update self yaw pitch now = (Inr r, self')"
  shows "res_state r = current_state self'"
    and "res_alert_active r = alert_active self'"
    and "res_time_not_looking r = time_not_looking self'"
    and "alert_active self \<Longrightarrow> current_state self' = NotLooking \<Longrightarrow> alert_active self'"
    and "current_state self = NotLooking \<Longrightarrow> current_state self' = Looking \<Longrightarrow>
           \<not> alert_active self' \<and> time_not_looking self' = 0"
proof -
  show "res_state r = current_state self'"
    and "res_alert_active r = alert_active self'"
    and "res_time_not_looking r = time_not_looking self'"
    using assms by (auto simp: update_def Let_def split: sum.splits prod.splits)
  obtain v c where sm: "smooth (observe self yaw pitch now) (classify_attention self yaw pitch) = Inr (v, c)"
    using assms by (cases rule: update_cases [of self yaw pitch now]) (auto simp: update_raises)
  have s': "self' = update_statistics (accumulate_time
        (check_transition (observe self yaw pitch now) v) (now - last_update_time self))"
    using assms update_returns [OF sm] by simp
  show "alert_active self \<Longrightarrow> current_state self' = NotLooking \<Longrightarrow> alert_active self'"
    unfolding s'
    by (cases v) (auto simp: check_transition_def accumulate_time_def Let_def split: if_splits)
  show "current_state self = NotLooking \<Longrightarrow> current_state self' = Looking \<Longrightarrow>
           \<not> alert_active self' \<and> time_not_looking self' = 0"
    unfolding s'
    by (cases v) (auto simp: check_transition_def accumulate_time_def Let_def split: if_splits)
qed

lemma run_Cons_Inr:
  assumes "run self ((yaw, pitch, now) # fs) = Inr (steps, final)"
  obtains r self' rest where
    "update self yaw pitch now = (Inr r, self')"
    "run self' fs = Inr (rest, final)"
    "steps = \<lparr> before = current_state self,
               smoothed = (case smoothed_of self yaw pitch now of
                             Some v \<Rightarrow> v | None \<Rightarrow> current_state self),
               result = r \<rparr> # rest"
  using assms by (auto split: prod.splits sum.splits)

lemma alert_over_run:
  assumes "run self fs = Inr (steps, final)"
    and "alert_active self" and "current_state self = NotLooking"
  shows "(\<forall>st \<in> set (takeWhile (\<lambda>st. res_state (result st) = NotLooking) steps).
            before st = NotLooking \<and> res_alert_active (result st)) \<and>
         (case dropWhile (\<lambda>st. res_state (result st) = NotLooking) steps of
            [] \<Rightarrow> current_state final = NotLooking \<and> alert_active final
          | st # rest \<Rightarrow>
              before st = NotLooking \<and> res_state (result st) = Looking \<and>
              \<not> res_alert_active (result st) \<and> res_time_not_looking (result st) = 0)"
  using assms
proof (induction fs arbitrary: self steps)
  case Nil
  then show ?case by simp
next
  case (Cons f fs)
  obtain yaw pitch now where f: "f = (yaw, pitch, now)"
    by (cases f) auto
  from Cons.prems(1) [unfolded f]
  obtain r self' rest where
    u: "update self yaw pitch now = (Inr r, self')" and
    rest: "run self' fs = Inr (rest, final)" and
    steps: "steps = \<lparr> before = current_state self,
               smoothed = (case smoothed_of self yaw pitch now of
                             Some v \<Rightarrow> v | None \<Rightarrow> current_state self),
               result = r \<rparr> # rest"
    by (rule run_Cons_Inr)
  note st = update_alert_step [OF u]
  show ?case
  proof (cases "res_state r")
    case NotLooking
    then have cur: "current_state self' = NotLooking" using st(1) by simp
    then have al: "alert_active self'" using st(4) Cons.prems(2) by simp
    from Cons.IH [OF rest al cur] show ?thesis
      using NotLooking st(2) al Cons.prems(3) by (simp add: steps)
  next
    case Looking
    then have "current_state self' = Looking" using st(1) by simp
    from st(5) [OF Cons.prems(3) this] show ?thesis
      using Looking st(2,3) Cons.prems(3) by (simp add: steps)
  qed
qed

text \<open>
  C4. From a tracker whose alert is active while its state is \<open>NotLooking\<close>, over any
  sequence of returning \<^verbatim>\<open>update\<close> calls: every call up to the first one that returns
  the state \<open>Looking\<close> starts in \<open>NotLooking\<close> and returns the alert active; that
  first call, if there is one, returns the alert inactive and \<open>time_not_looking\<close> 0; if
  there is none, the alert is still active at the end. Call by call: the returned
  dictionary shows the fields of the tracker after the call, an active alert survives
  every call that ends in \<open>NotLooking\<close>, and a call that moves the state from
  \<open>NotLooking\<close> to \<open>Looking\<close> returns the alert inactive and the timer 0.
\<close>

theorem alert_stays_until_looking_returns:
  "(\<forall>self fs steps final.
      run self fs = Inr (steps, final) \<and> alert_active self \<and> current_state self = NotLooking
      \<longrightarrow>
        (\<forall>st \<in> set (takeWhile (\<lambda>st. res_state (result st) = NotLooking) steps).
            before st = NotLooking \<and> res_alert_active (result st)) \<and>
        (case dropWhile (\<lambda>st. res_state (result st) = NotLooking) steps of
            [] \<Rightarrow> current_state final = NotLooking \<and> alert_active final
          | st # rest \<Rightarrow>
              before st = NotLooking \<and> res_state (result st) = Looking \<and>
              \<not> res_alert_active (result st) \<and> res_time_not_looking (result st) = 0)) \<and>
   (\<forall>self yaw pitch now r self'.
      update self yaw pitch now = (Inr r, self') \<longrightarrow>
        res_state r = current_state self' \<and>
        res_alert_active r = alert_active self' \<and>
        res_time_not_looking r = time_not_looking self' \<and>
        (alert_active self \<and> current_state self' = NotLooking \<longrightarrow> res_alert_active r) \<and>
        (current_state self = NotLooking \<and> current_state self' = Looking \<longrightarrow>
           \<not> res_alert_active r \<and> res_time_not_looking r = 0))"
proof (intro conjI allI impI)
  fix self fs steps final
  assume a: "run self fs = Inr (steps, final) \<and> alert_active self \<and>
             current_state self = NotLooking"
  from alert_over_run [of self fs steps final] a
  show "\<forall>st \<in> set (takeWhile (\<lambda>st. res_state (result st) = NotLooking) steps).
            before st = NotLooking \<and> res_alert_active (result st)"
    and "case dropWhile (\<lambda>st. res_state (result st) = NotLooking) steps of
            [] \<Rightarrow> current_state final = NotLooking \<and> alert_active final
          | st # rest \<Rightarrow>
              before st = NotLooking \<and> res_state (result st) = Looking \<and>
              \<not> res_alert_active (result st) \<and> res_time_not_looking (result st) = 0"
    by simp_all
next
  fix self yaw pitch now r self'
  assume u: "update self yaw pitch now = (Inr r, self')"
  note st = update_alert_step [OF u]
  show "res_state r = current_state self'" by (rule st(1))
  show "res_alert_active r = alert_active self'" by (rule st(2))
  show "res_time_not_looking r = time_not_looking self'" by (rule st(3))
  show "res_alert_active r"
    if "alert_active self \<and> current_state self' = NotLooking"
    using that st(2) st(4) by simp
  show "\<not> res_alert_active r"
    if "current_state self = NotLooking \<and> current_state self' = Looking"
    using that st(2) st(5) by simp
  show "res_time_not_looking r = 0"
    if "current_state self = NotLooking \<and> current_state self' = Looking"
    using that st(3) st(5) by simp
qed

text \<open>
  A tracker with threshold 1 second, window 1 and one confirming frame, alerted by a
  frame without a face 2 seconds after construction; one more such frame keeps the alert
  and a frame looking straight ahead clears it.
\<close>

theorem alert_stays_until_looking_returns_witness:
  "alert_active (snd (update (fresh 1 25 20 1 1 0) None None 2)) \<and>
   current_state (snd (update (fresh 1 25 20 1 1 0) None None 2)) = NotLooking \<and>
   (\<exists>steps final.
      run (snd (update (fresh 1 25 20 1 1 0) None None 2))
          [(None, None, 3), (Some 0, Some 0, 4)] = Inr (steps, final) \<and>
      map (\<lambda>st. res_state (result st)) steps = [NotLooking, Looking] \<and>
      map (\<lambda>st. res_alert_active (result st)) steps = [True, False] \<and>
      map (\<lambda>st. res_time_not_looking (result st)) steps = [3, 0])"
proof -
  let ?S = "snd (update (fresh 1 25 20 1 1 0) None None 2)"
  let ?fs = "[(None, None, 3), (Some 0, Some 0, 4)] :: frame list"
  have a: "alert_active ?S" and c: "current_state ?S = NotLooking"
    by (simp_all add: concrete_call)
  obtain steps final where
    run: "run ?S ?fs = Inr (steps, final)" and
    states: "map (\<lambda>st. res_state (result st)) steps = [NotLooking, Looking]" and
    times: "res_time_not_looking (result (hd steps)) = 3"
    by (simp add: concrete_call)
  obtain s1 s2 where steps: "steps = [s1, s2]"
    and s1: "res_state (result s1) = NotLooking" and s2: "res_state (result s2) = Looking"
    using states by auto
  from alert_stays_until_looking_returns a c run
  have "(\<forall>st \<in> set (takeWhile (\<lambda>st. res_state (result st) = NotLooking) steps).
            before st = NotLooking \<and> res_alert_active (result st)) \<and>
        (case dropWhile (\<lambda>st. res_state (result st) = NotLooking) steps of
            [] \<Rightarrow> current_state final = NotLooking \<and> alert_active final
          | st # rest \<Rightarrow>
              before st = NotLooking \<and> res_state (result st) = Looking \<and>
              \<not> res_alert_active (result st) \<and> res_time_not_looking (result st) = 0)"
    by blast
  then have "res_alert_active (result s1) \<and> \<not> res_alert_active (result s2) \<and>
             res_time_not_looking (result s2) = 0"
    using s1 s2 by (simp add: steps)
  then show ?thesis
    using a c run states times by (auto simp: steps)
qed

section \<open>The timer, reset and the scenario without a face\<close>

lemma reachable_feed: "reachable self \<Longrightarrow> reachable (feed self fs)"
proof (induction fs arbitrary: self)
  case Nil
  then show ?case by simp
next
  case (Cons f fs)
  obtain yaw pitch now where f: "f = (yaw, pitch, now)"
    by (cases f) auto
  have "reachable (snd (update self yaw pitch now))"
    using Cons.prems by (rule reachable.updated)
  then show ?case unfolding f by (simp add: Cons.IH)
qed

lemma update_time:
  assumes "update self yaw pitch now = (Inr r, self')"
  shows "last_update_time self' = now"
    and "time_not_looking self' =
           (if current_state self' = NotLooking
            then time_not_looking self + (now - last_update_time self)
            else if current_state self = NotLooking then 0 else time_not_looking self)"
proof -
  obtain v c where sm: "smooth (observe self yaw pitch now) (classify_attention self yaw pitch) = Inr (v, c)"
    using assms by (cases rule: update_cases [of self yaw pitch now]) (auto simp: update_raises)
  have s': "self' = update_statistics (accumulate_time
        (check_transition (observe self yaw pitch now) v) (now - last_update_time self))"
    using assms update_returns [OF sm] by simp
  show "last_update_time self' = now"
    unfolding s' by simp
  show "time_not_looking self' =
           (if current_state self' = NotLooking
            then time_not_looking self + (now - last_update_time self)
            else if current_state self = NotLooking then 0 else time_not_looking self)"
    unfolding s'
    by (cases v; cases "current_state self")
       (auto simp: check_transition_def accumulate_time_def Let_def)
qed

text \<open>
  C5, as the code has it. For a tracker with a smoothing window of at least 1 every call
  of \<^verbatim>\<open>update\<close> returns and stores the clock value it read. When the state after the
  call is \<open>NotLooking\<close> the call adds the signed difference between that clock value
  and the stored one to \<open>time_not_looking\<close>, with no clamping; a call that moves the
  state from \<open>NotLooking\<close> to \<open>Looking\<close> sets it to 0; any other call leaves it
  unchanged. So \<open>time_not_looking\<close> does not decrease over a call that does not move the
  state to \<open>Looking\<close>, provided the clock did not go back since the previous call.
\<close>

theorem update_adds_the_signed_time_delta:
  assumes "1 \<le> smoothing_window self"
  shows "\<exists>r self'.
           update self yaw pitch now = (Inr r, self') \<and>
           last_update_time self' = now \<and>
           res_time_not_looking r = time_not_looking self' \<and>
           time_not_looking self' =
             (if current_state self' = NotLooking
              then time_not_looking self + (now - last_update_time self)
              else if current_state self = NotLooking then 0 else time_not_looking self) \<and>
           (last_update_time self \<le> now \<and>
            \<not> (current_state self = NotLooking \<and> current_state self' = Looking)
              \<longrightarrow> time_not_looking self \<le> time_not_looking self')"
proof -
  obtain v c where
    "smooth (observe self yaw pitch now) (classify_attention self yaw pitch) = Inr (v, c)"
    using smooth_succeeds [OF assms] by blast
  from update_returns [OF this]
  obtain r self' where u: "update self yaw pitch now = (Inr r, self')"
    by blast
  note t = update_time [OF u] and a = update_alert_step [OF u]
  have "time_not_looking self \<le> time_not_looking self'"
    if "last_update_time self \<le> now"
      and "\<not> (current_state self = NotLooking \<and> current_state self' = Looking)"
    using that t(2) by (cases "current_state self'"; cases "current_state self") auto
  then show ?thesis
    using u t a(3) by blast
qed

text \<open>
  The default tracker in state \<open>NotLooking\<close> with the timer at 1 and the last clock
  value 3: a call at clock value 5 leaves the timer at 3.
\<close>

theorem update_adds_the_signed_time_delta_witness:
  "1 \<le> smoothing_window (feed (fresh 5 25 20 5 3 0) [(None, None, 1), (None, None, 2), (None, None, 3)]) \<and>
   (\<exists>r self'.
      update (feed (fresh 5 25 20 5 3 0) [(None, None, 1), (None, None, 2), (None, None, 3)])
        None None 5 = (Inr r, self') \<and>
      current_state self' = NotLooking \<and>
      res_time_not_looking r = 3 \<and> time_not_looking self' = 3 \<and> last_update_time self' = 5)"
proof -
  let ?S = "feed (fresh 5 25 20 5 3 0) [(None, None, 1), (None, None, 2), (None, None, 3)]"
  have w: "1 \<le> smoothing_window ?S"
    by (simp add: concrete_call)
  have c: "current_state (snd (update ?S None None 5)) = NotLooking"
    "time_not_looking ?S = 1" "last_update_time ?S = 3"
    by (simp_all add: concrete_call)
  from update_adds_the_signed_time_delta [OF w, of None None 5]
  obtain r self' where
    u: "update ?S None None 5 = (Inr r, self')" and
    l: "last_update_time self' = 5" and
    rt: "res_time_not_looking r = time_not_looking self'" and
    t: "time_not_looking self' =
             (if current_state self' = NotLooking
              then time_not_looking ?S + (5 - last_update_time ?S)
              else if current_state ?S = NotLooking then 0 else time_not_looking ?S)"
    by blast
  have cs: "current_state self' = NotLooking"
    using c(1) u by simp
  have "time_not_looking self' = 3"
    using t cs c(2,3) by simp
  then show ?thesis
    using w u l rt cs by simp
qed

text \<open>
  The claim as the specification states it fails. The default tracker, constructed at
  clock value 0 and called without a face at 1, 2 and 3, is in state \<open>NotLooking\<close>
  with the timer at 1. A further call that reads the clock value 0 stays in
  \<open>NotLooking\<close> and returns the timer \<open>- 2\<close>: the negative difference was added,
  not treated as zero.
\<close>

theorem clock_going_back_counterexample:
  "reachable (feed (fresh 5 25 20 5 3 0) [(None, None, 1), (None, None, 2), (None, None, 3)]) \<and>
   current_state (feed (fresh 5 25 20 5 3 0) [(None, None, 1), (None, None, 2), (None, None, 3)])
     = NotLooking \<and>
   time_not_looking (feed (fresh 5 25 20 5 3 0) [(None, None, 1), (None, None, 2), (None, None, 3)])
     = 1 \<and>
   last_update_time (feed (fresh 5 25 20 5 3 0) [(None, None, 1), (None, None, 2), (None, None, 3)])
     = 3 \<and>
   fst (update (feed (fresh 5 25 20 5 3 0) [(None, None, 1), (None, None, 2), (None, None, 3)])
          None None 0)
     = Inr \<lparr> res_state = NotLooking, res_time_not_looking = - 2, res_alert_active = False,
             res_confidence = 0, res_raw_state = NotLooking \<rparr> \<and>
   current_state (snd (update
       (feed (fresh 5 25 20 5 3 0) [(None, None, 1), (None, None, 2), (None, None, 3)])
          None None 0)) = NotLooking \<and>
   time_not_looking (snd (update
       (feed (fresh 5 25 20 5 3 0) [(None, None, 1), (None, None, 2), (None, None, 3)])
          None None 0)) = - 2"
proof -
  have "init 5 25 20 5 3 0 = Inr (fresh 5 25 20 5 3 0)"
    by (simp add: init_cases)
  then have "reachable (fresh 5 25 20 5 3 0)"
    by (rule reachable.constructed)
  then have "reachable (feed (fresh 5 25 20 5 3 0)
      [(None, None, 1), (None, None, 2), (None, None, 3)])"
    by (rule reachable_feed)
  then show ?thesis
    by (simp add: concrete_call)
qed

lemma update_total:
  assumes "update self yaw pitch now = (Inr r, self')"
  shows "total_frames self' = total_frames self + 1"
proof -
  obtain v c where sm: "smooth (observe self yaw pitch now) (classify_attention self yaw pitch) = Inr (v, c)"
    using assms by (cases rule: update_cases [of self yaw pitch now]) (auto simp: update_raises)
  show ?thesis
    using assms update_returns [OF sm] by auto
qed

lemma run_keeps_options:
  assumes "run self fs = Inr (steps, final)"
  shows "alert_threshold final = alert_threshold self \<and>
         yaw_threshold final = yaw_threshold self \<and>
         pitch_threshold final = pitch_threshold self \<and>
         smoothing_window final = smoothing_window self \<and>
         min_consecutive_frames final = min_consecutive_frames self \<and>
         total_frames final = total_frames self + int (length fs) \<and>
         length steps = length fs"
  using assms
proof (induction fs arbitrary: self steps)
  case Nil
  then show ?case by simp
next
  case (Cons f fs)
  obtain yaw pitch now where f: "f = (yaw, pitch, now)"
    by (cases f) auto
  from Cons.prems [unfolded f]
  obtain r self' rest where
    u: "update self yaw pitch now = (Inr r, self')" and
    rest: "run self' fs = Inr (rest, final)" and
    steps: "steps = \<lparr> before = current_state self,
               smoothed = (case smoothed_of self yaw pitch now of
                             Some v \<Rightarrow> v | None \<Rightarrow> current_state self),
               result = r \<rparr> # rest"
    by (rule run_Cons_Inr)
  have s: "self' = snd (update self yaw pitch now)" using u by simp
  have "alert_threshold self' = alert_threshold self \<and>
        yaw_threshold self' = yaw_threshold self \<and>
        pitch_threshold self' = pitch_threshold self \<and>
        smoothing_window self' = smoothing_window self \<and>
        min_consecutive_frames self' = min_consecutive_frames self"
    unfolding s by simp
  then show ?case
    using Cons.IH [OF rest] update_total [OF u] by (simp add: steps)
qed

text \<open>
  C1, as the code has it. After any sequence of returning \<^verbatim>\<open>update\<close> calls on a newly
  constructed tracker, \<^verbatim>\<open>reset\<close> gives the tracker that construction with the same
  options gives at the clock value of the reset, except for the three counters
  \<open>total_frames\<close>, \<open>frames_looking\<close> and \<open>frames_not_looking\<close>, which it leaves
  as they are; \<open>total_frames\<close> is the number of calls made. The statistics read after
  the reset show the state \<open>Looking\<close>, the timer 0 and no alert, the counters as they
  were before the reset, and the ratio computed from them.
\<close>

theorem reset_restores_all_but_the_counters:
  assumes "run (fresh a y p w m c) fs = Inr (steps, self)"
  shows "reset self now =
           (fresh a y p w m now)
             \<lparr> total_frames := total_frames self,
               frames_looking := frames_looking self,
               frames_not_looking := frames_not_looking self \<rparr> \<and>
         total_frames self = int (length fs) \<and>
         get_statistics (reset self now) =
           \<lparr> stat_total_frames = int (length fs),
             stat_frames_looking = frames_looking self,
             stat_frames_not_looking = frames_not_looking self,
             stat_attention_ratio =
               (if fs = [] then 1
                else real_of_int (frames_looking self) / real (length fs)),
             stat_current_state = Looking,
             stat_time_not_looking = 0,
             stat_alert_active = False \<rparr>"
proof -
  note k = run_keeps_options [OF assms]
  have t: "total_frames self = int (length fs)"
    using k by (simp add: fresh_def)
  have "reset self now =
           (fresh a y p w m now)
             \<lparr> total_frames := total_frames self,
               frames_looking := frames_looking self,
               frames_not_looking := frames_not_looking self \<rparr>"
    using k by (intro tracker.equality) (simp_all add: fresh_def)
  moreover have "get_statistics (reset self now) =
           \<lparr> stat_total_frames = int (length fs),
             stat_frames_looking = frames_looking self,
             stat_frames_not_looking = frames_not_looking self,
             stat_attention_ratio =
               (if fs = [] then 1
                else real_of_int (frames_looking self) / real (length fs)),
             stat_current_state = Looking,
             stat_time_not_looking = 0,
             stat_alert_active = False \<rparr>"
    using t by (simp add: get_statistics_def)
  ultimately show ?thesis using t by simp
qed

text \<open>
  Two calls on the default tracker, then a reset at clock value 3.
\<close>

theorem reset_restores_all_but_the_counters_witness:
  "(\<exists>steps self.
      run (fresh 5 25 20 5 3 0) [(Some 0, Some 0, 1), (None, None, 2)] = Inr (steps, self) \<and>
      reset self 3 =
        (fresh 5 25 20 5 3 3)
          \<lparr> total_frames := 2, frames_looking := 2, frames_not_looking := 0 \<rparr> \<and>
      stat_total_frames (get_statistics (reset self 3)) = 2 \<and>
      stat_current_state (get_statistics (reset self 3)) = Looking \<and>
      stat_time_not_looking (get_statistics (reset self 3)) = 0 \<and>
      stat_alert_active (get_statistics (reset self 3)) = False)"
proof -
  obtain steps self where
    run: "run (fresh 5 25 20 5 3 0) [(Some 0, Some 0, 1), (None, None, 2)] = Inr (steps, self)"
    and c: "frames_looking self = 2" "frames_not_looking self = 0"
    by (simp add: concrete_call)
  note th = reset_restores_all_but_the_counters [OF run, of 3]
  have e: "reset self 3 =
          (fresh 5 25 20 5 3 3)
            \<lparr> total_frames := 2, frames_looking := 2, frames_not_looking := 0 \<rparr>"
    using th [THEN conjunct1] th [THEN conjunct2, THEN conjunct1] c by simp
  have g: "get_statistics (reset self 3) =
           \<lparr> stat_total_frames = 2, stat_frames_looking = 2, stat_frames_not_looking = 0,
             stat_attention_ratio = 1, stat_current_state = Looking,
             stat_time_not_looking = 0, stat_alert_active = False \<rparr>"
    using th [THEN conjunct2, THEN conjunct2] c by simp
  have "stat_total_frames (get_statistics (reset self 3)) = 2 \<and>
        stat_current_state (get_statistics (reset self 3)) = Looking \<and>
        stat_time_not_looking (get_statistics (reset self 3)) = 0 \<and>
        stat_alert_active (get_statistics (reset self 3)) = False"
    by (simp add: g)
  then show ?thesis using run e by blast
qed

text \<open>
  The claim as the specification states it fails: the statistics of a new tracker have
  all counters 0, while after one call and a reset \<open>total_frames\<close> and
  \<open>frames_looking\<close> are 1, and after three calls without a face and a reset the
  counters are 3, 2 and 1 and the ratio is two thirds.
\<close>

theorem reset_keeps_counting_counterexample:
  "get_statistics (fresh 5 25 20 5 3 0) =
     \<lparr> stat_total_frames = 0, stat_frames_looking = 0, stat_frames_not_looking = 0,
       stat_attention_ratio = 1, stat_current_state = Looking,
       stat_time_not_looking = 0, stat_alert_active = False \<rparr> \<and>
   get_statistics (reset (feed (fresh 5 25 20 5 3 0) [(None, None, 1)]) 2) =
     \<lparr> stat_total_frames = 1, stat_frames_looking = 1, stat_frames_not_looking = 0,
       stat_attention_ratio = 1, stat_current_state = Looking,
       stat_time_not_looking = 0, stat_alert_active = False \<rparr> \<and>
   get_statistics (reset (feed (fresh 5 25 20 5 3 0)
       [(None, None, 1), (None, None, 2), (None, None, 3)]) 4) =
     \<lparr> stat_total_frames = 3, stat_frames_looking = 2, stat_frames_not_looking = 1,
       stat_attention_ratio = 2 / 3, stat_current_state = Looking,
       stat_time_not_looking = 0, stat_alert_active = False \<rparr>"
  by (simp add: concrete_call get_statistics_def reset_def)

text \<open>
  C9, as the code has it. With the default options, constructed at any clock value, and
  \<^verbatim>\<open>update\<close> called without a face at the clock values 0 to 6: every raw
  classification is \<open>NotLooking\<close>; the smoothed state is \<open>NotLooking\<close> from the first
  call on (it is the raw classification while the window holds fewer than 5 entries, and
  the vote 0 of 5 from call 5 on); the tracker state is \<open>Looking\<close> after calls 1 and
  2 and \<open>NotLooking\<close> from call 3, the third consecutive confirming frame, on; the
  window fills at call 5; the timer reads 1 to 5 at calls 3 to 7 and the alert is active
  at call 7.
\<close>

theorem absent_face_scenario:
  "\<exists>steps final.
     run (fresh 5 25 20 5 3 c)
       [(None, None, 0), (None, None, 1), (None, None, 2), (None, None, 3),
        (None, None, 4), (None, None, 5), (None, None, 6)] = Inr (steps, final) \<and>
     map (\<lambda>st. res_raw_state (result st)) steps =
       [NotLooking, NotLooking, NotLooking, NotLooking, NotLooking, NotLooking, NotLooking] \<and>
     map smoothed steps =
       [NotLooking, NotLooking, NotLooking, NotLooking, NotLooking, NotLooking, NotLooking] \<and>
     map before steps =
       [Looking, Looking, Looking, NotLooking, NotLooking, NotLooking, NotLooking] \<and>
     map (\<lambda>st. res_state (result st)) steps =
       [Looking, Looking, NotLooking, NotLooking, NotLooking, NotLooking, NotLooking] \<and>
     map (\<lambda>st. res_time_not_looking (result st)) steps = [0, 0, 1, 2, 3, 4, 5] \<and>
     map (\<lambda>st. res_alert_active (result st)) steps =
       [False, False, False, False, False, False, True] \<and>
     map (\<lambda>k. length (state_buffer (feed (fresh 5 25 20 5 3 c) (take k
       [(None, None, 0), (None, None, 1), (None, None, 2), (None, None, 3),
        (None, None, 4), (None, None, 5), (None, None, 6)])))) [1, 2, 3, 4, 5, 6, 7]
       = [1, 2, 3, 4, 5, 5, 5] \<and>
     state_buffer final = [NotLooking, NotLooking, NotLooking, NotLooking, NotLooking]"
  by (simp add: concrete_call)

text \<open>
  The claim as the specification states it fails: the first call already has the
  smoothed state \<open>NotLooking\<close>, and the tracker state is \<open>NotLooking\<close> after the third
  call, when the window holds three entries; the scenario has seven calls, so there is
  no call 8.
\<close>

theorem absent_face_scenario_counterexample:
  "smoothed_of (fresh 5 25 20 5 3 0) None None 0 = Some NotLooking \<and>
   current_state (feed (fresh 5 25 20 5 3 0) [(None, None, 0), (None, None, 1)]) = Looking \<and>
   current_state (feed (fresh 5 25 20 5 3 0) [(None, None, 0), (None, None, 1), (None, None, 2)])
     = NotLooking \<and>
   state_buffer (feed (fresh 5 25 20 5 3 0) [(None, None, 0), (None, None, 1), (None, None, 2)])
     = [NotLooking, NotLooking, NotLooking] \<and>
   length [(None, None, 0), (None, None, 1), (None, None, 2), (None, None, 3),
           (None, None, 4), (None, None, 5), (None, None, 6 :: real)] = 7"
  by (simp add: concrete_call)

section \<open>The debounce\<close>

lemma update_debounce:
  assumes "update s yaw pitch now = (Inr r, s')"
  obtains v where
    "smoothed_of s yaw pitch now = Some v"
    "current_state s' =
       (if v \<noteq> current_state s \<and>
           min_consecutive_frames s \<le> (if v = previous_state s then consecutive_count s + 1 else 1)
        then v else current_state s)"
    "consecutive_count s' =
       (if v = current_state s then 0
        else if min_consecutive_frames s \<le> (if v = previous_state s then consecutive_count s + 1 else 1)
        then 0
        else (if v = previous_state s then consecutive_count s + 1 else 1))"
    "previous_state s' = v"
    "min_consecutive_frames s' = min_consecutive_frames s"
    "res_state r = current_state s'"
proof -
  obtain v c where sm: "smooth (observe s yaw pitch now) (classify_attention s yaw pitch) = Inr (v, c)"
    and so: "smoothed_of s yaw pitch now = Some v"
    using assms by (cases rule: update_cases [of s yaw pitch now]) (auto simp: update_raises)
  have s': "s' = update_statistics (accumulate_time
        (check_transition (observe s yaw pitch now) v) (now - last_update_time s))"
    and r: "res_state r = current_state (check_transition (observe s yaw pitch now) v)"
    using assms update_returns [OF sm] by auto
  show ?thesis
  proof (rule that [of v])
    show "smoothed_of s yaw pitch now = Some v" by (rule so)
    show "current_state s' =
       (if v \<noteq> current_state s \<and>
           min_consecutive_frames s \<le> (if v = previous_state s then consecutive_count s + 1 else 1)
        then v else current_state s)"
      unfolding s' by (simp add: check_transition_def Let_def)
    show "consecutive_count s' =
       (if v = current_state s then 0
        else if min_consecutive_frames s \<le> (if v = previous_state s then consecutive_count s + 1 else 1)
        then 0
        else (if v = previous_state s then consecutive_count s + 1 else 1))"
      unfolding s' by (simp add: check_transition_def Let_def)
    show "previous_state s' = v"
      unfolding s' by (simp add: check_transition_def Let_def)
    show "min_consecutive_frames s' = min_consecutive_frames s"
      unfolding s' by simp
    show "res_state r = current_state s'"
      unfolding s' using r by simp
  qed
qed

lemma run_snoc:
  "run self (fs @ [(yaw, pitch, now)]) =
     (case run self fs of
        Inl e \<Rightarrow> Inl e
      | Inr (steps, s) \<Rightarrow>
          (case update s yaw pitch now of
             (Inl e, s') \<Rightarrow> Inl e
           | (Inr r, s') \<Rightarrow>
               Inr (steps @ [\<lparr> before = current_state s,
                                smoothed = (case smoothed_of s yaw pitch now of
                                              Some v \<Rightarrow> v | None \<Rightarrow> current_state s),
                                result = r \<rparr>], s')))"
proof (induction fs arbitrary: self)
  case Nil
  show ?case by (simp split: prod.splits sum.splits)
next
  case (Cons f fs)
  obtain y p n where f: "f = (y, p, n)" by (cases f) auto
  show ?case
    unfolding f by (simp add: Cons.IH split: prod.splits sum.splits)
qed

lemma other_attention: "(a::attention) \<noteq> b \<Longrightarrow> c \<noteq> b \<Longrightarrow> a = c"
  by (cases a; cases b; cases c) auto

lemma pending_streak:
  assumes "run self fs = Inr (steps, s)"
    and "consecutive_count self = 0" and "1 \<le> min_consecutive_frames self"
  shows "int (length (takeWhile
            (\<lambda>st. before st = current_state s \<and> smoothed st \<noteq> current_state s \<and>
                   res_state (result st) = current_state s) (rev steps)))
           = consecutive_count s \<and>
         (consecutive_count s = 0 \<or> previous_state s \<noteq> current_state s) \<and>
         consecutive_count s < min_consecutive_frames s \<and>
         min_consecutive_frames s = min_consecutive_frames self"
  using assms(1)
proof (induction fs arbitrary: steps s rule: rev_induct)
  case Nil
  then show ?case using assms(2,3) by simp
next
  case (snoc f fs)
  obtain yaw pitch now where f: "f = (yaw, pitch, now)" by (cases f) auto
  from snoc.prems obtain steps1 s1 r where
    run1: "run self fs = Inr (steps1, s1)" and
    u: "update s1 yaw pitch now = (Inr r, s)" and
    steps: "steps = steps1 @ [\<lparr> before = current_state s1,
                                smoothed = (case smoothed_of s1 yaw pitch now of
                                              Some v \<Rightarrow> v | None \<Rightarrow> current_state s1),
                                result = r \<rparr>]"
    unfolding f run_snoc by (auto split: prod.splits sum.splits)
  note ih = snoc.IH [OF run1]
  from u obtain v where
    so: "smoothed_of s1 yaw pitch now = Some v" and
    cur: "current_state s =
       (if v \<noteq> current_state s1 \<and>
           min_consecutive_frames s1 \<le> (if v = previous_state s1 then consecutive_count s1 + 1 else 1)
        then v else current_state s1)" and
    cnt: "consecutive_count s =
       (if v = current_state s1 then 0
        else if min_consecutive_frames s1 \<le> (if v = previous_state s1 then consecutive_count s1 + 1 else 1)
        then 0
        else (if v = previous_state s1 then consecutive_count s1 + 1 else 1))" and
    prev: "previous_state s = v" and
    m: "min_consecutive_frames s = min_consecutive_frames s1" and
    res: "res_state r = current_state s"
    by (rule update_debounce)
  have inc: "(if v = previous_state s1 then consecutive_count s1 + 1 else 1) = consecutive_count s1 + 1"
    if "v \<noteq> current_state s1"
    using that ih other_attention [of v "current_state s1" "previous_state s1"] by auto
  show ?case
  proof (cases "v = current_state s1")
    case True
    then show ?thesis
      using ih cur cnt m by (simp add: steps so)
  next
    case False
    show ?thesis
    proof (cases "min_consecutive_frames s1 \<le> consecutive_count s1 + 1")
      case True
      then show ?thesis
        using False ih cur cnt m inc [OF False] by (simp add: steps so)
    next
      case confirm: False
      then have c: "current_state s = current_state s1"
        and n: "consecutive_count s = consecutive_count s1 + 1"
        using False cur cnt inc [OF False] by simp_all
      show ?thesis
        using False ih m prev res confirm by (simp add: steps so c n)
    qed
  qed
qed

lemma confirmation_is_the_last_of_a_streak:
  assumes "1 \<le> min_consecutive_frames self" and "consecutive_count self = 0"
    and "run self fs = Inr (steps, s)"
    and "update s yaw pitch now = (Inr r, s')"
    and "current_state s' \<noteq> current_state s"
  shows "smoothed_of s yaw pitch now = Some (current_state s') \<and>
         int (length (takeWhile
            (\<lambda>st. before st = current_state s \<and> smoothed st = current_state s' \<and>
                   res_state (result st) = current_state s) (rev steps))) + 1
           = min_consecutive_frames self"
proof -
  note ps = pending_streak [OF assms(3,2,1)]
  from assms(4) obtain v where
    so: "smoothed_of s yaw pitch now = Some v" and
    cur: "current_state s' =
       (if v \<noteq> current_state s \<and>
           min_consecutive_frames s \<le> (if v = previous_state s then consecutive_count s + 1 else 1)
        then v else current_state s)"
    by (rule update_debounce)
  have v: "v \<noteq> current_state s" and v': "current_state s' = v"
    and ge: "min_consecutive_frames s \<le> (if v = previous_state s then consecutive_count s + 1 else 1)"
    using cur assms(5) by (auto split: if_splits)
  have "(if v = previous_state s then consecutive_count s + 1 else 1) = consecutive_count s + 1"
    using v ps other_attention [of v "current_state s" "previous_state s"] by auto
  then have eq: "consecutive_count s + 1 = min_consecutive_frames self"
    using ge ps by simp
  have iff: "(a = v) = (a \<noteq> current_state s)" for a
    using v by (cases a; cases "current_state s"; cases v) simp_all
  show ?thesis
    unfolding v' using ps eq so by (simp add: iff)
qed

lemma streak_of_length_confirms:
  assumes "1 \<le> min_consecutive_frames self" and "consecutive_count self = 0"
    and "run self fs = Inr (steps, s)"
    and "update s yaw pitch now = (Inr r, s')"
    and "smoothed_of s yaw pitch now = Some v" and "v \<noteq> current_state s"
    and "int (length (takeWhile
            (\<lambda>st. before st = current_state s \<and> smoothed st = v \<and>
                   res_state (result st) = current_state s) (rev steps))) + 1
           = min_consecutive_frames self"
  shows "current_state s' = v"
proof -
  note ps = pending_streak [OF assms(3,2,1)]
  from assms(4) obtain v' where
    so: "smoothed_of s yaw pitch now = Some v'" and
    cur: "current_state s' =
       (if v' \<noteq> current_state s \<and>
           min_consecutive_frames s \<le> (if v' = previous_state s then consecutive_count s + 1 else 1)
        then v' else current_state s)"
    by (rule update_debounce)
  have vv: "v' = v" using so assms(5) by simp
  have inc: "(if v = previous_state s then consecutive_count s + 1 else 1) = consecutive_count s + 1"
    using assms(6) ps other_attention [of v "current_state s" "previous_state s"] by auto
  have iff: "(a = v) = (a \<noteq> current_state s)" for a
    using assms(6) by (cases a; cases "current_state s"; cases v) simp_all
  have "consecutive_count s + 1 = min_consecutive_frames s"
    using assms(7) ps by (simp add: iff)
  then show ?thesis
    using cur assms(6) inc by (simp add: vv)
qed

lemma short_flip_is_ignored:
  assumes "3 \<le> min_consecutive_frames self" and "consecutive_count self = 0"
    and "run self [f1, f2, f3] = Inr (steps, final)"
    and "v \<noteq> current_state self"
    and "map smoothed steps = [v, v, current_state self]"
  shows "map (\<lambda>st. res_state (result st)) steps
           = [current_state self, current_state self, current_state self] \<and>
         current_state final = current_state self \<and> consecutive_count final = 0"
proof -
  obtain y1 p1 n1 y2 p2 n2 y3 p3 n3 where
    f: "f1 = (y1, p1, n1)" "f2 = (y2, p2, n2)" "f3 = (y3, p3, n3)"
    by (cases f1; cases f2; cases f3) auto
  from assms(3) [unfolded f] obtain r1 s1 rest1 where
    u1: "update self y1 p1 n1 = (Inr r1, s1)" and
    run1: "run s1 [(y2, p2, n2), (y3, p3, n3)] = Inr (rest1, final)" and
    st1: "steps = \<lparr> before = current_state self,
               smoothed = (case smoothed_of self y1 p1 n1 of
                             Some v \<Rightarrow> v | None \<Rightarrow> current_state self),
               result = r1 \<rparr> # rest1"
    by (rule run_Cons_Inr)
  from run1 obtain r2 s2 rest2 where
    u2: "update s1 y2 p2 n2 = (Inr r2, s2)" and
    run2: "run s2 [(y3, p3, n3)] = Inr (rest2, final)" and
    st2: "rest1 = \<lparr> before = current_state s1,
               smoothed = (case smoothed_of s1 y2 p2 n2 of
                             Some v \<Rightarrow> v | None \<Rightarrow> current_state s1),
               result = r2 \<rparr> # rest2"
    by (rule run_Cons_Inr)
  from run2 obtain r3 s3 rest3 where
    u3: "update s2 y3 p3 n3 = (Inr r3, s3)" and
    run3: "run s3 [] = Inr (rest3, final)" and
    st3: "rest2 = \<lparr> before = current_state s2,
               smoothed = (case smoothed_of s2 y3 p3 n3 of
                             Some v \<Rightarrow> v | None \<Rightarrow> current_state s2),
               result = r3 \<rparr> # rest3"
    by (rule run_Cons_Inr)
  have fin: "rest3 = []" "final = s3" using run3 by simp_all
  from u1 obtain v1 where d1:
    "smoothed_of self y1 p1 n1 = Some v1"
    "current_state s1 =
       (if v1 \<noteq> current_state self \<and>
           min_consecutive_frames self \<le> (if v1 = previous_state self then consecutive_count self + 1 else 1)
        then v1 else current_state self)"
    "consecutive_count s1 =
       (if v1 = current_state self then 0
        else if min_consecutive_frames self \<le> (if v1 = previous_state self then consecutive_count self + 1 else 1)
        then 0
        else (if v1 = previous_state self then consecutive_count self + 1 else 1))"
    "previous_state s1 = v1"
    "min_consecutive_frames s1 = min_consecutive_frames self"
    "res_state r1 = current_state s1"
    by (rule update_debounce)
  from u2 obtain v2 where d2:
    "smoothed_of s1 y2 p2 n2 = Some v2"
    "current_state s2 =
       (if v2 \<noteq> current_state s1 \<and>
           min_consecutive_frames s1 \<le> (if v2 = previous_state s1 then consecutive_count s1 + 1 else 1)
        then v2 else current_state s1)"
    "consecutive_count s2 =
       (if v2 = current_state s1 then 0
        else if min_consecutive_frames s1 \<le> (if v2 = previous_state s1 then consecutive_count s1 + 1 else 1)
        then 0
        else (if v2 = previous_state s1 then consecutive_count s1 + 1 else 1))"
    "previous_state s2 = v2"
    "min_consecutive_frames s2 = min_consecutive_frames s1"
    "res_state r2 = current_state s2"
    by (rule update_debounce)
  from u3 obtain v3 where d3:
    "smoothed_of s2 y3 p3 n3 = Some v3"
    "current_state s3 =
       (if v3 \<noteq> current_state s2 \<and>
           min_consecutive_frames s2 \<le> (if v3 = previous_state s2 then consecutive_count s2 + 1 else 1)
        then v3 else current_state s2)"
    "consecutive_count s3 =
       (if v3 = current_state s2 then 0
        else if min_consecutive_frames s2 \<le> (if v3 = previous_state s2 then consecutive_count s2 + 1 else 1)
        then 0
        else (if v3 = previous_state s2 then consecutive_count s2 + 1 else 1))"
    "previous_state s3 = v3"
    "min_consecutive_frames s3 = min_consecutive_frames s2"
    "res_state r3 = current_state s3"
    by (rule update_debounce)
  have vs: "v1 = v" "v2 = v" "v3 = current_state self"
    using assms(5) d1(1) d2(1) d3(1) by (simp_all add: st1 st2 st3 fin)
  have c1: "current_state s1 = current_state self" and n1: "consecutive_count s1 = 1"
    using d1(2,3) assms(1,2,4) by (simp_all add: vs)
  have c2: "current_state s2 = current_state self" and n2: "consecutive_count s2 = 2"
    using d2(2,3) d1(4,5) c1 n1 assms(1,4) by (simp_all add: vs)
  have c3: "current_state s3 = current_state self" and n3: "consecutive_count s3 = 0"
    using d3(2,3) c2 by (simp_all add: vs)
  show ?thesis
    using c1 c2 c3 n3 d1(6) d2(6) d3(6) by (simp add: st1 st2 st3 fin)
qed

lemma isolated_flip_is_ignored:
  assumes "2 \<le> min_consecutive_frames self" and "consecutive_count self = 0"
    and "run self [f1, f2] = Inr (steps, final)"
    and "v \<noteq> current_state self"
    and "map smoothed steps = [v, current_state self]"
  shows "map (\<lambda>st. res_state (result st)) steps = [current_state self, current_state self] \<and>
         current_state final = current_state self \<and> consecutive_count final = 0"
proof -
  obtain y1 p1 n1 y2 p2 n2 where
    f: "f1 = (y1, p1, n1)" "f2 = (y2, p2, n2)"
    by (cases f1; cases f2) auto
  from assms(3) [unfolded f] obtain r1 s1 rest1 where
    u1: "update self y1 p1 n1 = (Inr r1, s1)" and
    run1: "run s1 [(y2, p2, n2)] = Inr (rest1, final)" and
    st1: "steps = \<lparr> before = current_state self,
               smoothed = (case smoothed_of self y1 p1 n1 of
                             Some v \<Rightarrow> v | None \<Rightarrow> current_state self),
               result = r1 \<rparr> # rest1"
    by (rule run_Cons_Inr)
  from run1 obtain r2 s2 rest2 where
    u2: "update s1 y2 p2 n2 = (Inr r2, s2)" and
    run2: "run s2 [] = Inr (rest2, final)" and
    st2: "rest1 = \<lparr> before = current_state s1,
               smoothed = (case smoothed_of s1 y2 p2 n2 of
                             Some v \<Rightarrow> v | None \<Rightarrow> current_state s1),
               result = r2 \<rparr> # rest2"
    by (rule run_Cons_Inr)
  have fin: "rest2 = []" "final = s2" using run2 by simp_all
  from u1 obtain v1 where d1:
    "smoothed_of self y1 p1 n1 = Some v1"
    "current_state s1 =
       (if v1 \<noteq> current_state self \<and>
           min_consecutive_frames self \<le> (if v1 = previous_state self then consecutive_count self + 1 else 1)
        then v1 else current_state self)"
    "consecutive_count s1 =
       (if v1 = current_state self then 0
        else if min_consecutive_frames self \<le> (if v1 = previous_state self then consecutive_count self + 1 else 1)
        then 0
        else (if v1 = previous_state self then consecutive_count self + 1 else 1))"
    "previous_state s1 = v1"
    "min_consecutive_frames s1 = min_consecutive_frames self"
    "res_state r1 = current_state s1"
    by (rule update_debounce)
  from u2 obtain v2 where d2:
    "smoothed_of s1 y2 p2 n2 = Some v2"
    "current_state s2 =
       (if v2 \<noteq> current_state s1 \<and>
           min_consecutive_frames s1 \<le> (if v2 = previous_state s1 then consecutive_count s1 + 1 else 1)
        then v2 else current_state s1)"
    "consecutive_count s2 =
       (if v2 = current_state s1 then 0
        else if min_consecutive_frames s1 \<le> (if v2 = previous_state s1 then consecutive_count s1 + 1 else 1)
        then 0
        else (if v2 = previous_state s1 then consecutive_count s1 + 1 else 1))"
    "previous_state s2 = v2"
    "min_consecutive_frames s2 = min_consecutive_frames s1"
    "res_state r2 = current_state s2"
    by (rule update_debounce)
  have vs: "v1 = v" "v2 = current_state self"
    using assms(5) d1(1) d2(1) by (simp_all add: st1 st2 fin)
  have c1: "current_state s1 = current_state self"
    using d1(2) assms(1,2,4) by (simp add: vs)
  have c2: "current_state s2 = current_state self" and n2: "consecutive_count s2 = 0"
    using d2(2,3) c1 by (simp_all add: vs)
  show ?thesis
    using c1 c2 n2 d1(6) d2(6) by (simp add: st1 st2 fin)
qed

lemma reachable_has_a_history:
  assumes "reachable s"
  shows "\<exists>q fs steps.
           consecutive_count q = 0 \<and>
           min_consecutive_frames q = min_consecutive_frames s \<and>
           run q fs = Inr (steps, s)"
proof -
  have "(\<exists>q fs steps.
           consecutive_count q = 0 \<and>
           min_consecutive_frames q = min_consecutive_frames s \<and>
           run q fs = Inr (steps, s)) \<and>
        (smoothing_window s < 1 \<longrightarrow> consecutive_count s = 0)"
    using assms
  proof (induction rule: reachable.induct)
    case (constructed a y p w m now self)
    then have "self = fresh a y p w m now"
      by (auto simp: init_cases split: if_splits)
    then have "consecutive_count self = 0" by (simp add: fresh_def)
    moreover have "run self [] = Inr ([], self)" by simp
    ultimately show ?case by blast
  next
    case (updated self yaw pitch now)
    then obtain q fs steps where
      q: "consecutive_count q = 0" "min_consecutive_frames q = min_consecutive_frames self"
      and run: "run q fs = Inr (steps, self)"
      by blast
    show ?case
    proof (cases "1 \<le> smoothing_window self")
      case True
      obtain v c where
        "smooth (observe self yaw pitch now) (classify_attention self yaw pitch) = Inr (v, c)"
        using smooth_succeeds [OF True] by blast
      from update_returns [OF this]
      obtain r self' where u: "update self yaw pitch now = (Inr r, self')"
        by blast
      have "run q (fs @ [(yaw, pitch, now)]) =
              Inr (steps @ [\<lparr> before = current_state self,
                                smoothed = (case smoothed_of self yaw pitch now of
                                              Some v \<Rightarrow> v | None \<Rightarrow> current_state self),
                                result = r \<rparr>], snd (update self yaw pitch now))"
        using run u by (simp add: run_snoc)
      then show ?thesis
        using q True by (intro conjI exI [of _ q]) auto
    next
      case False
      then have zero: "consecutive_count self = 0"
        using updated.IH by simp
      have "state_buffer self = []"
        using reachable_buffer [OF updated.hyps] False
        by (cases "state_buffer self") auto
      then have "state_buffer (observe self yaw pitch now) = []"
        using False by (simp add: deque_append_def)
      then have "smooth (observe self yaw pitch now) (classify_attention self yaw pitch)
                   = Inl ZeroDivisionError"
        using False by (simp add: smooth_def)
      then have e: "snd (update self yaw pitch now) = observe self yaw pitch now"
        by (simp add: update_raises)
      show ?thesis
        unfolding e using zero
        by (intro conjI exI [of _ "observe self yaw pitch now"] exI [of _ "[]"]) simp_all
    qed
  next
    case (was_reset self now)
    show ?case
      by (intro conjI exI [of _ "reset self now"] exI [of _ "[]"]) simp_all
  qed
  then show ?thesis by simp
qed

text \<open>
  C3, with the bound the code does not check. Take a tracker with
  \<open>min_consecutive_frames\<close> at least 1 and no confirmation
  pending (its counter is 0, as after construction, after \<^verbatim>\<open>reset\<close>, after a call whose
  smoothed state matched and after a confirmed change), and any sequence of returning
  \<^verbatim>\<open>update\<close> calls on it. If the next call changes the tracker state, its smoothed
  state is the new state, and the calls immediately before it that started in the same
  state, produced that same smoothed state and left the state unchanged number exactly
  \<open>min_consecutive_frames - 1\<close>: the call is the \<open>min_consecutive_frames\<close>-th
  consecutive one. Conversely such a call does change the state. With
  \<open>min_consecutive_frames\<close> at least 3, two calls with the differing smoothed state
  followed by one with the current state leave the state unchanged after each of the
  three; with at least 2, one call with the differing smoothed state followed by one
  with the current state leaves it unchanged after both. Every reachable state is the end
  of such a sequence.
\<close>

theorem state_changes_only_on_the_confirming_frame:
  "(\<forall>self fs steps s yaw pitch now r s'.
      1 \<le> min_consecutive_frames self \<and> consecutive_count self = 0 \<and>
      run self fs = Inr (steps, s) \<and>
      update s yaw pitch now = (Inr r, s') \<and>
      current_state s' \<noteq> current_state s
      \<longrightarrow>
        smoothed_of s yaw pitch now = Some (current_state s') \<and>
        int (length (takeWhile
            (\<lambda>st. before st = current_state s \<and> smoothed st = current_state s' \<and>
                   res_state (result st) = current_state s) (rev steps))) + 1
          = min_consecutive_frames self) \<and>
   (\<forall>self fs steps s yaw pitch now r s' v.
      1 \<le> min_consecutive_frames self \<and> consecutive_count self = 0 \<and>
      run self fs = Inr (steps, s) \<and>
      update s yaw pitch now = (Inr r, s') \<and>
      smoothed_of s yaw pitch now = Some v \<and> v \<noteq> current_state s \<and>
      int (length (takeWhile
            (\<lambda>st. before st = current_state s \<and> smoothed st = v \<and>
                   res_state (result st) = current_state s) (rev steps))) + 1
          = min_consecutive_frames self
      \<longrightarrow> current_state s' = v) \<and>
   (\<forall>self f1 f2 f3 steps final v.
      3 \<le> min_consecutive_frames self \<and> consecutive_count self = 0 \<and>
      run self [f1, f2, f3] = Inr (steps, final) \<and>
      v \<noteq> current_state self \<and>
      map smoothed steps = [v, v, current_state self]
      \<longrightarrow>
        map (\<lambda>st. res_state (result st)) steps
          = [current_state self, current_state self, current_state self] \<and>
        current_state final = current_state self \<and> consecutive_count final = 0) \<and>
   (\<forall>self f1 f2 steps final v.
      2 \<le> min_consecutive_frames self \<and> consecutive_count self = 0 \<and>
      run self [f1, f2] = Inr (steps, final) \<and>
      v \<noteq> current_state self \<and>
      map smoothed steps = [v, current_state self]
      \<longrightarrow>
        map (\<lambda>st. res_state (result st)) steps = [current_state self, current_state self] \<and>
        current_state final = current_state self \<and> consecutive_count final = 0) \<and>
   (\<forall>s. reachable s \<longrightarrow>
      (\<exists>q fs steps.
         consecutive_count q = 0 \<and>
         min_consecutive_frames q = min_consecutive_frames s \<and>
         run q fs = Inr (steps, s)))"
proof (intro conjI allI impI)
  fix self fs steps s yaw pitch now r s'
  assume "1 \<le> min_consecutive_frames self \<and> consecutive_count self = 0 \<and>
      run self fs = Inr (steps, s) \<and>
      update s yaw pitch now = (Inr r, s') \<and>
      current_state s' \<noteq> current_state s"
  then have "smoothed_of s yaw pitch now = Some (current_state s') \<and>
        int (length (takeWhile
            (\<lambda>st. before st = current_state s \<and> smoothed st = current_state s' \<and>
                   res_state (result st) = current_state s) (rev steps))) + 1
          = min_consecutive_frames self"
    using confirmation_is_the_last_of_a_streak [of self fs steps s yaw pitch now r s'] by blast
  then show "smoothed_of s yaw pitch now = Some (current_state s')"
    and "int (length (takeWhile
            (\<lambda>st. before st = current_state s \<and> smoothed st = current_state s' \<and>
                   res_state (result st) = current_state s) (rev steps))) + 1
          = min_consecutive_frames self"
    by simp_all
next
  fix self fs steps s yaw pitch now r s' v
  assume "1 \<le> min_consecutive_frames self \<and> consecutive_count self = 0 \<and>
      run self fs = Inr (steps, s) \<and>
      update s yaw pitch now = (Inr r, s') \<and>
      smoothed_of s yaw pitch now = Some v \<and> v \<noteq> current_state s \<and>
      int (length (takeWhile
            (\<lambda>st. before st = current_state s \<and> smoothed st = v \<and>
                   res_state (result st) = current_state s) (rev steps))) + 1
          = min_consecutive_frames self"
  then show "current_state s' = v"
    using streak_of_length_confirms [of self fs steps s yaw pitch now r s' v] by blast
next
  fix self f1 f2 f3 steps final v
  assume "3 \<le> min_consecutive_frames self \<and> consecutive_count self = 0 \<and>
      run self [f1, f2, f3] = Inr (steps, final) \<and>
      v \<noteq> current_state self \<and>
      map smoothed steps = [v, v, current_state self]"
  then have "map (\<lambda>st. res_state (result st)) steps
          = [current_state self, current_state self, current_state self] \<and>
        current_state final = current_state self \<and> consecutive_count final = 0"
    using short_flip_is_ignored [of self f1 f2 f3 steps final v] by simp
  then show "map (\<lambda>st. res_state (result st)) steps
          = [current_state self, current_state self, current_state self]"
    and "current_state final = current_state self" and "consecutive_count final = 0"
    by simp_all
next
  fix self f1 f2 steps final v
  assume "2 \<le> min_consecutive_frames self \<and> consecutive_count self = 0 \<and>
      run self [f1, f2] = Inr (steps, final) \<and>
      v \<noteq> current_state self \<and>
      map smoothed steps = [v, current_state self]"
  then have "map (\<lambda>st. res_state (result st)) steps = [current_state self, current_state self] \<and>
        current_state final = current_state self \<and> consecutive_count final = 0"
    using isolated_flip_is_ignored [of self f1 f2 steps final v] by simp
  then show "map (\<lambda>st. res_state (result st)) steps = [current_state self, current_state self]"
    and "current_state final = current_state self" and "consecutive_count final = 0"
    by simp_all
next
  fix s
  assume "reachable s"
  then show "\<exists>q fs steps.
         consecutive_count q = 0 \<and>
         min_consecutive_frames q = min_consecutive_frames s \<and>
         run q fs = Inr (steps, s)"
    by (rule reachable_has_a_history)
qed

text \<open>
  The default tracker: two frames without a face and then a third, which changes the
  state; and two frames without a face followed by a frame looking straight ahead, which
  change nothing.
\<close>

theorem state_changes_only_on_the_confirming_frame_witness:
  "3 \<le> min_consecutive_frames (fresh 5 25 20 5 3 0) \<and>
   consecutive_count (fresh 5 25 20 5 3 0) = 0 \<and>
   current_state (fresh 5 25 20 5 3 0) = Looking \<and>
   (\<exists>steps s r s'.
      run (fresh 5 25 20 5 3 0) [(None, None, 0), (None, None, 1)] = Inr (steps, s) \<and>
      update s None None 2 = (Inr r, s') \<and>
      current_state s = Looking \<and> current_state s' = NotLooking \<and>
      smoothed_of s None None 2 = Some NotLooking \<and>
      int (length (takeWhile
            (\<lambda>st. before st = Looking \<and> smoothed st = NotLooking \<and>
                   res_state (result st) = Looking) (rev steps))) + 1 = 3) \<and>
   (\<exists>steps final.
      run (fresh 5 25 20 5 3 0) [(None, None, 0), (None, None, 1), (Some 0, Some 0, 2)]
        = Inr (steps, final) \<and>
      map smoothed steps = [NotLooking, NotLooking, Looking] \<and>
      map (\<lambda>st. res_state (result st)) steps = [Looking, Looking, Looking] \<and>
      current_state final = Looking)"
proof -
  let ?T = "fresh 5 25 20 5 3 0"
  have m: "3 \<le> min_consecutive_frames ?T" "1 \<le> min_consecutive_frames ?T"
    "min_consecutive_frames ?T = 3"
    and c: "consecutive_count ?T = 0" and l: "current_state ?T = Looking"
    by (simp_all add: fresh_def)
  obtain steps s r s' where
    run: "run ?T [(None, None, 0), (None, None, 1)] = Inr (steps, s)" and
    u: "update s None None 2 = (Inr r, s')" and
    cs: "current_state s = Looking" "current_state s' = NotLooking"
    by (simp add: concrete_call)
  have ne: "current_state s' \<noteq> current_state s"
    using cs by simp
  note first = state_changes_only_on_the_confirming_frame
    [THEN conjunct1, rule_format]
  note third = state_changes_only_on_the_confirming_frame
    [THEN conjunct2, THEN conjunct2, THEN conjunct1, rule_format]
  from m(2) c run u ne
  have pre: "1 \<le> min_consecutive_frames ?T \<and> consecutive_count ?T = 0 \<and>
      run ?T [(None, None, 0), (None, None, 1)] = Inr (steps, s) \<and>
      update s None None 2 = (Inr r, s') \<and>
      current_state s' \<noteq> current_state s"
    by (intro conjI)
  note a = first [OF pre]
  obtain steps2 final where
    run2: "run ?T [(None, None, 0), (None, None, 1), (Some 0, Some 0, 2)] = Inr (steps2, final)"
    and sm: "map smoothed steps2 = [NotLooking, NotLooking, current_state ?T]"
    by (simp add: concrete_call)
  have ne2: "NotLooking \<noteq> current_state ?T"
    using l by simp
  from m(1) c run2 ne2 sm
  have pre2: "3 \<le> min_consecutive_frames ?T \<and> consecutive_count ?T = 0 \<and>
      run ?T [(None, None, 0), (None, None, 1), (Some 0, Some 0, 2)] = Inr (steps2, final) \<and>
      NotLooking \<noteq> current_state ?T \<and>
      map smoothed steps2 = [NotLooking, NotLooking, current_state ?T]"
    by (intro conjI)
  note b = third [OF pre2]
  have "\<exists>steps s r s'.
      run ?T [(None, None, 0), (None, None, 1)] = Inr (steps, s) \<and>
      update s None None 2 = (Inr r, s') \<and>
      current_state s = Looking \<and> current_state s' = NotLooking \<and>
      smoothed_of s None None 2 = Some NotLooking \<and>
      int (length (takeWhile
            (\<lambda>st. before st = Looking \<and> smoothed st = NotLooking \<and>
                   res_state (result st) = Looking) (rev steps))) + 1 = 3"
    using run u a cs m(3) by (intro exI [of _ steps] exI [of _ s] exI [of _ r] exI [of _ s']) simp
  moreover have "\<exists>steps final.
      run ?T [(None, None, 0), (None, None, 1), (Some 0, Some 0, 2)] = Inr (steps, final) \<and>
      map smoothed steps = [NotLooking, NotLooking, Looking] \<and>
      map (\<lambda>st. res_state (result st)) steps = [Looking, Looking, Looking] \<and>
      current_state final = Looking"
    using run2 sm b l by (intro exI [of _ steps2] exI [of _ final]) simp
  ultimately show ?thesis
    using m(1) c l by blast
qed

text \<open>
  The claim as stated, for every reachable tracker, fails: construction accepts a count
  of confirming frames of 0, and on that tracker the first call with a differing
  smoothed state returns and changes the state, although it is the first such call in a
  row and not the 0-th.
\<close>

theorem first_differing_frame_flips_counterexample:
  "init 5 25 20 5 0 0 = Inr (fresh 5 25 20 5 0 0) \<and>
   reachable (fresh 5 25 20 5 0 0) \<and>
   min_consecutive_frames (fresh 5 25 20 5 0 0) = 0 \<and>
   consecutive_count (fresh 5 25 20 5 0 0) = 0 \<and>
   current_state (fresh 5 25 20 5 0 0) = Looking \<and>
   run (fresh 5 25 20 5 0 0) [] = Inr ([], fresh 5 25 20 5 0 0) \<and>
   smoothed_of (fresh 5 25 20 5 0 0) None None 1 = Some NotLooking \<and>
   fst (update (fresh 5 25 20 5 0 0) None None 1) =
     Inr \<lparr> res_state = NotLooking, res_time_not_looking = 1, res_alert_active = False,
           res_confidence = 0, res_raw_state = NotLooking \<rparr> \<and>
   current_state (snd (update (fresh 5 25 20 5 0 0) None None 1)) = NotLooking \<and>
   int (length (takeWhile
      (\<lambda>st. before st = Looking \<and> smoothed st = NotLooking \<and>
             res_state (result st) = Looking) (rev ([] :: step list)))) + 1
     \<noteq> min_consecutive_frames (fresh 5 25 20 5 0 0)"
proof -
  have i: "init 5 25 20 5 0 0 = Inr (fresh 5 25 20 5 0 0)"
    by (simp add: init_cases)
  then have "reachable (fresh 5 25 20 5 0 0)"
    by (rule reachable.constructed)
  then show ?thesis
    using i by (simp add: concrete_call)
qed

end
